theory Spec2Isabelle
  imports Complex_Main
begin

section \<open>Values of the source\<close>

text \<open>
  The program is \<^verbatim>\<open>mtglabels/generator.py\<close>. Python's unbounded \<^verbatim>\<open>int\<close> is \<^typ>\<open>int\<close>,
  list indices and loop counters that start at zero are \<^typ>\<open>nat\<close>, \<^verbatim>\<open>str\<close> is
  \<^typ>\<open>string\<close>. The coordinates and deltas, which are Python \<^verbatim>\<open>float\<close>s, are modelled by
  the exact \<^typ>\<open>real\<close> number the expression denotes: the rounding of IEEE arithmetic is
  not modelled, so \<^verbatim>\<open>a / b\<close> is the exact quotient and \<^verbatim>\<open>0.8\<close> is four fifths.
\<close>

datatype error = KeyError | RequestException | ValueError | OverflowError

text \<open>\<^verbatim>\<open>str.lower()\<close>, on the ASCII letters (set codes are ASCII).\<close>

definition lower_char :: "char \<Rightarrow> char" where
  "lower_char c =
     (case map_of (zip ''ABCDEFGHIJKLMNOPQRSTUVWXYZ'' ''abcdefghijklmnopqrstuvwxyz'') c of
        None \<Rightarrow> c
      | Some l \<Rightarrow> l)"

definition lower :: "string \<Rightarrow> string" where
  "lower s = map lower_char s"

text \<open>\<^verbatim>\<open>d.get(k, default)\<close> on a dictionary written as its list of items.\<close>

definition dict_get :: "('k \<times> 'v) list \<Rightarrow> 'k \<Rightarrow> 'v \<Rightarrow> 'v" where
  "dict_get d k dflt = (case map_of d k of None \<Rightarrow> dflt | Some v \<Rightarrow> v)"

section \<open>Module constants\<close>

definition SET_TYPES :: "string list" where
  "SET_TYPES =
     [''core'', ''expansion'', ''starter'', ''masters'', ''commander'', ''planechase'',
      ''draft_innovation'', ''duel_deck'', ''premium_deck'', ''from_the_vault'',
      ''archenemy'', ''box'', ''funny'']"

definition MINIMUM_SET_SIZE :: int where
  "MINIMUM_SET_SIZE = 50"

definition IGNORED_SETS :: "string list" where
  "IGNORED_SETS = [''cmb1'', ''amh1'', ''cmb2'']"

definition RENAME_SETS :: "(string \<times> string) list" where
  "RENAME_SETS =
     [(''Adventures in the Forgotten Realms'', ''Forgotten Realms''),
      (''Adventures in the Forgotten Realms Minigames'', ''Forgotten Realms Minigames''),
      (''Angels: They're Just Like Us but Cooler and with Wings'', ''Angels: Just Like Us''),
      (''Archenemy: Nicol Bolas Schemes'', ''Archenemy: Bolas Schemes''),
      (''Chronicles Foreign Black Border'', ''Chronicles FBB''),
      (''Commander Anthology Volume II'', ''Commander Anthology II''),
      (''Commander Legends: Battle for Baldur's Gate'', ''CMDR Legends: Baldur's Gate''),
      (''Dominaria United Commander'', ''Dominaria United [C]''),
      (''Duel Decks: Elves vs. Goblins'', ''DD: Elves vs. Goblins''),
      (''Duel Decks: Jace vs. Chandra'', ''DD: Jace vs. Chandra''),
      (''Duel Decks: Divine vs. Demonic'', ''DD: Divine vs. Demonic''),
      (''Duel Decks: Garruk vs. Liliana'', ''DD: Garruk vs. Liliana''),
      (''Duel Decks: Phyrexia vs. the Coalition'', ''DD: Phyrexia vs. Coalition''),
      (''Duel Decks: Elspeth vs. Tezzeret'', ''DD: Elspeth vs. Tezzeret''),
      (''Duel Decks: Knights vs. Dragons'', ''DD: Knights vs. Dragons''),
      (''Duel Decks: Ajani vs. Nicol Bolas'', ''DD: Ajani vs. Nicol Bolas''),
      (''Duel Decks: Heroes vs. Monsters'', ''DD: Heroes vs. Monsters''),
      (''Duel Decks: Speed vs. Cunning'', ''DD: Speed vs. Cunning''),
      (''Duel Decks Anthology: Elves vs. Goblins'', ''DDA: Elves vs. Goblins''),
      (''Duel Decks Anthology: Jace vs. Chandra'', ''DDA: Jace vs. Chandra''),
      (''Duel Decks Anthology: Divine vs. Demonic'', ''DDA: Divine vs. Demonic''),
      (''Duel Decks Anthology: Garruk vs. Liliana'', ''DDA: Garruk vs. Liliana''),
      (''Duel Decks: Elspeth vs. Kiora'', ''DD: Elspeth vs. Kiora''),
      (''Duel Decks: Zendikar vs. Eldrazi'', ''DD: Zendikar vs. Eldrazi''),
      (''Duel Decks: Blessed vs. Cursed'', ''DD: Blessed vs. Cursed''),
      (''Duel Decks: Nissa vs. Ob Nixilis'', ''DD: Nissa vs. Ob Nixilis''),
      (''Duel Decks: Merfolk vs. Goblins'', ''DD: Merfolk vs. Goblins''),
      (''Duel Decks: Elves vs. Inventors'', ''DD: Elves vs. Inventors''),
      (''Duel Decks: Mirrodin Pure vs. New Phyrexia'', ''DD: Mirrodin vs.New Phyrexia''),
      (''Duel Decks: Izzet vs. Golgari'', ''Duel Decks: Izzet vs. Golgari''),
      (''Fourth Edition Foreign Black Border'', ''Fourth Edition FBB''),
      (''Global Series Jiang Yanggu & Mu Yanling'', ''Jiang Yanggu & Mu Yanling''),
      (''Innistrad: Crimson Vow Minigames'', ''Crimson Vow Minigames''),
      (''Introductory Two-Player Set'', ''Intro Two-Player Set''),
      (''March of the Machine: The Aftermath'', ''MotM: The Aftermath''),
      (''March of the Machine Commander'', ''March of the Machine [C]''),
      (''Murders at Karlov Manor Commander'', ''Murders at Karlov Manor [C]''),
      (''Mystery Booster Playtest Cards'', ''Mystery Booster Playtest''),
      (''Mystery Booster Playtest Cards 2019'', ''MB Playtest Cards 2019''),
      (''Mystery Booster Playtest Cards 2021'', ''MB Playtest Cards 2021''),
      (''Mystery Booster Retail Edition Foils'', ''Mystery Booster Retail Foils''),
      (''Outlaws of Thunder Junction Commander'', ''Outlaws of Thunder Junction [C]''),
      (''Phyrexia: All Will Be One Commander'', ''Phyrexia: All Will Be One [C]''),
      (''Planechase Anthology Planes'', ''Planechase Anth. Planes''),
      (''Premium Deck Series: Slivers'', ''Premium Deck Slivers''),
      (''Premium Deck Series: Graveborn'', ''Premium Deck Graveborn''),
      (''Premium Deck Series: Fire and Lightning'', ''PD: Fire & Lightning''),
      (''Shadows over Innistrad Remastered'', ''SOI Remastered''),
      (''Strixhaven: School of Mages Minigames'', ''Strixhaven Minigames''),
      (''Tales of Middle-earth Commander'', ''Tales of Middle-earth [C]''),
      (''The Brothers' War Retro Artifacts'', ''Brothers' War Retro''),
      (''The Brothers' War Commander'', ''Brothers' War Commander''),
      (''The Lord of the Rings: Tales of Middle-earth'', ''LOTR: Tales of Middle-earth''),
      (''The Lost Caverns of Ixalan Commander'', ''The Lost Caverns of Ixalan [C]''),
      (''Warhammer 40,000 Commander'', ''Warhammer 40K [C]''),
      (''Wilds of Eldraine Commander'', ''Wilds of Eldraine [C]''),
      (''World Championship Decks 1997'', ''World Championship 1997''),
      (''World Championship Decks 1998'', ''World Championship 1998''),
      (''World Championship Decks 1999'', ''World Championship 1999''),
      (''World Championship Decks 2000'', ''World Championship 2000''),
      (''World Championship Decks 2001'', ''World Championship 2001''),
      (''World Championship Decks 2002'', ''World Championship 2002''),
      (''World Championship Decks 2003'', ''World Championship 2003''),
      (''World Championship Decks 2004'', ''World Championship 2004'')]"

text \<open>
  The name a label shows: \<^verbatim>\<open>RENAME_SETS.get(exp["name"], exp["name"])\<close>, as both
  \<^verbatim>\<open>get_set_label_raw\<close> and \<^verbatim>\<open>generate_color_set_mode\<close> write it.
\<close>

definition rename_set :: "string \<Rightarrow> string" where
  "rename_set n = dict_get RENAME_SETS n n"

section \<open>The class \<^verbatim>\<open>LabelGenerator\<close>\<close>

subsection \<open>Class attributes\<close>

text \<open>
  \<^verbatim>\<open>MARGIN = 100\<close>, \<^verbatim>\<open>START_X = MARGIN\<close> and \<^verbatim>\<open>START_Y = MARGIN\<close> are evaluated once, in the
  class body. The constructor may give the instance a \<^verbatim>\<open>MARGIN\<close> of its own, which is
  a field of the record below; \<^verbatim>\<open>START_X\<close> and \<^verbatim>\<open>START_Y\<close> are never assigned again.
\<close>

definition COLS :: nat where
  "COLS = 4"

definition ROWS :: nat where
  "ROWS = 15"

definition class_MARGIN :: int where
  "class_MARGIN = 100"

definition START_X :: int where
  "START_X = class_MARGIN"

definition START_Y :: int where
  "START_Y = class_MARGIN"

definition PAPER_SIZES :: "(string \<times> (int \<times> int)) list" where
  "PAPER_SIZES = [(''letter'', (2790, 2160)), (''a4'', (2970, 2100))]"

definition DEFAULT_PAPER_SIZE :: string where
  "DEFAULT_PAPER_SIZE = ''letter''"

definition WIDE_LABEL_MM :: int where
  "WIDE_LABEL_MM = 88"

definition COLOR_SYMBOLS :: "(string \<times> string) list" where
  "COLOR_SYMBOLS =
     [(''W'', ''White''), (''U'', ''Blue''), (''B'', ''Black''), (''R'', ''Red''),
      (''G'', ''Green''), (''C'', ''Colorless'')]"

subsection \<open>Instance state\<close>

text \<open>
  The attributes \<^verbatim>\<open>__init__\<close> sets, and \<^verbatim>\<open>_wide_cols\<close>, which exists only after
  \<^verbatim>\<open>layout_wide_labels\<close> has run (\<^verbatim>\<open>hasattr\<close> is \<open>wide_cols g \<noteq> None\<close>).
\<close>

record LabelGenerator =
  paper_size :: string
  portrait :: bool
  set_codes :: "string list"
  ignored_sets :: "string list"
  set_types :: "string list"
  minimum_set_size :: int
  width :: int
  height :: int
  MARGIN :: int
  delta_x :: real
  delta_y :: real
  output_dir :: string
  generate_pdfs :: bool
  include_color_labels :: bool
  wide_cols :: "nat option"

text \<open>
  \<^verbatim>\<open>__init__\<close>. An unknown paper size raises \<^verbatim>\<open>KeyError\<close> at \<^verbatim>\<open>PAPER_SIZES[paper_size]\<close>.
  The swap of the portrait orientation comes before \<^verbatim>\<open>width\<close>, \<^verbatim>\<open>height\<close> and the two
  deltas are computed.

  \<^verbatim>\<open>margin_mm\<close> is a float, and \<^verbatim>\<open>int(round(margin_mm * 10))\<close> rounds the IEEE product,
  which this development does not compute. The last argument of \<open>init\<close> is therefore
  \<open>None\<close> when no margin is given, and otherwise the outcome of that expression: the
  integer Python obtains, or the exception it raises (\<^verbatim>\<open>OverflowError\<close> for an infinity,
  \<^verbatim>\<open>ValueError\<close> for a NaN). For \<^verbatim>\<open>margin_mm=-1.0\<close> the product is exactly \<^verbatim>\<open>-10.0\<close> and
  the outcome is \<open>Inr (-10)\<close>.
\<close>

definition init ::
  "string \<Rightarrow> string \<Rightarrow> bool \<Rightarrow> bool \<Rightarrow> bool \<Rightarrow> (error + int) option
     \<Rightarrow> error + LabelGenerator" where
  "init paper_size0 output_dir0 generate_pdfs0 include_color_labels0 portrait0 margin_tenths =
     (case map_of PAPER_SIZES paper_size0 of
        None \<Rightarrow> Inl KeyError
      | Some (w, h) \<Rightarrow>
          (case (case margin_tenths of None \<Rightarrow> Inr class_MARGIN | Some outcome \<Rightarrow> outcome) of
             Inl e \<Rightarrow> Inl e
           | Inr margin \<Rightarrow>
               (let paper = (if portrait0 then (h, w) else (w, h))
                in Inr \<lparr>paper_size = paper_size0,
                        portrait = portrait0,
                        set_codes = [],
                        ignored_sets = IGNORED_SETS,
                        set_types = SET_TYPES,
                        minimum_set_size = MINIMUM_SET_SIZE,
                        width = fst paper,
                        height = snd paper,
                        MARGIN = margin,
                        delta_x = real_of_int (fst paper - 2 * margin) / real COLS,
                        delta_y = real_of_int (snd paper - 2 * margin) / real ROWS,
                        output_dir = output_dir0,
                        generate_pdfs = generate_pdfs0,
                        include_color_labels = include_color_labels0,
                        wide_cols = None\<rparr>)))"

subsection \<open>Cutting guides\<close>

record guide =
  x1 :: real
  x2 :: real
  y1 :: real
  y2 :: real

text \<open>\<^verbatim>\<open>create_horizontal_cutting_guides\<close>: the loop over \<^verbatim>\<open>range(self.ROWS + 1)\<close>.\<close>

fun horizontal_guides_loop :: "LabelGenerator \<Rightarrow> nat list \<Rightarrow> guide list" where
  "horizontal_guides_loop g [] = []"
| "horizontal_guides_loop g (i # is) =
     [\<lparr>x1 = real_of_int (MARGIN g) / 2,
       x2 = real_of_int (MARGIN g) * 0.8,
       y1 = real_of_int (MARGIN g) + real i * delta_y g,
       y2 = real_of_int (MARGIN g) + real i * delta_y g\<rparr>,
      \<lparr>x1 = real_of_int (width g) - real_of_int (MARGIN g) / 2,
       x2 = real_of_int (width g) - real_of_int (MARGIN g) * 0.8,
       y1 = real_of_int (MARGIN g) + real i * delta_y g,
       y2 = real_of_int (MARGIN g) + real i * delta_y g\<rparr>]
     @ horizontal_guides_loop g is"

definition create_horizontal_cutting_guides :: "LabelGenerator \<Rightarrow> guide list" where
  "create_horizontal_cutting_guides g = horizontal_guides_loop g [0 ..< ROWS + 1]"

text \<open>\<^verbatim>\<open>create_vertical_cutting_guides\<close>: the loop over \<^verbatim>\<open>range(self.COLS + 1)\<close>.\<close>

fun vertical_guides_loop :: "LabelGenerator \<Rightarrow> nat list \<Rightarrow> guide list" where
  "vertical_guides_loop g [] = []"
| "vertical_guides_loop g (i # is) =
     [\<lparr>x1 = real_of_int (MARGIN g) + real i * delta_x g,
       x2 = real_of_int (MARGIN g) + real i * delta_x g,
       y1 = real_of_int (MARGIN g) / 2,
       y2 = real_of_int (MARGIN g) * 0.8\<rparr>,
      \<lparr>x1 = real_of_int (MARGIN g) + real i * delta_x g,
       x2 = real_of_int (MARGIN g) + real i * delta_x g,
       y1 = real_of_int (height g) - real_of_int (MARGIN g) / 2,
       y2 = real_of_int (height g) - real_of_int (MARGIN g) * 0.8\<rparr>]
     @ vertical_guides_loop g is"

definition create_vertical_cutting_guides :: "LabelGenerator \<Rightarrow> guide list" where
  "create_vertical_cutting_guides g = vertical_guides_loop g [0 ..< COLS + 1]"

text \<open>
  \<^verbatim>\<open>_wide_vertical_guides\<close>: no guide without \<^verbatim>\<open>_wide_cols\<close>; the loop over
  \<^verbatim>\<open>range(self._wide_cols + 1)\<close> leaves at the \<^verbatim>\<open>break\<close>, before it appends, once
  \<^verbatim>\<open>x > self.width - self.MARGIN\<close>.
\<close>

fun wide_guides_loop :: "LabelGenerator \<Rightarrow> nat list \<Rightarrow> guide list" where
  "wide_guides_loop g [] = []"
| "wide_guides_loop g (i # is) =
     (let cell_w = WIDE_LABEL_MM * 10;
          x = MARGIN g + int i * cell_w
      in if x > width g - MARGIN g then []
         else [\<lparr>x1 = real_of_int x,
                 x2 = real_of_int x,
                 y1 = real_of_int (MARGIN g) / 2,
                 y2 = real_of_int (MARGIN g) * 0.8\<rparr>,
                \<lparr>x1 = real_of_int x,
                 x2 = real_of_int x,
                 y1 = real_of_int (height g) - real_of_int (MARGIN g) / 2,
                 y2 = real_of_int (height g) - real_of_int (MARGIN g) * 0.8\<rparr>]
              @ wide_guides_loop g is)"

definition wide_vertical_guides :: "LabelGenerator \<Rightarrow> guide list" where
  "wide_vertical_guides g =
     (case wide_cols g of
        None \<Rightarrow> []
      | Some cols \<Rightarrow> wide_guides_loop g [0 ..< cols + 1])"

subsection \<open>Uniform grid layout\<close>

text \<open>A positioned label is \<^verbatim>\<open>{**item, "x": x, "y": y}\<close>: the item and its two coordinates.\<close>

record 'a label =
  label_item :: 'a
  label_x :: real
  label_y :: real

text \<open>
  \<^verbatim>\<open>layout_labels\<close>: the loop over \<^verbatim>\<open>enumerate(raw_items)\<close>, with the running index
  \<open>idx\<close>. \<^verbatim>\<open>//\<close> and \<^verbatim>\<open>%\<close> on the non-negative index are \<open>div\<close> and \<open>mod\<close> on \<^typ>\<open>nat\<close>.
\<close>

fun layout_labels_loop :: "LabelGenerator \<Rightarrow> nat \<Rightarrow> 'a list \<Rightarrow> 'a label list" where
  "layout_labels_loop g idx [] = []"
| "layout_labels_loop g idx (item # raw_items) =
     (let col = (idx div ROWS) mod COLS;
          row = idx mod ROWS;
          x = real_of_int START_X + real col * delta_x g;
          y = real_of_int START_Y + real row * delta_y g
      in \<lparr>label_item = item, label_x = x, label_y = y\<rparr>
         # layout_labels_loop g (idx + 1) raw_items)"

definition layout_labels :: "LabelGenerator \<Rightarrow> 'a list \<Rightarrow> 'a label list" where
  "layout_labels g raw_items = layout_labels_loop g 0 raw_items"

subsection \<open>Pagination\<close>

text \<open>
  The inner loop of both page loops,
  \<^verbatim>\<open>while labels and len(exps) < per_page: exps.append(labels.pop(0))\<close>; it returns
  the labels left and the page filled.
\<close>

fun fill_page :: "nat \<Rightarrow> 'a list \<Rightarrow> 'a list \<Rightarrow> 'a list \<times> 'a list" where
  "fill_page per_page [] exps = ([], exps)"
| "fill_page per_page (l # labels) exps =
     (if length exps < per_page then fill_page per_page labels (exps @ [l])
      else (l # labels, exps))"

text \<open>
  One written page: the arguments of \<^verbatim>\<open>template.render\<close>, the page number in the file
  name, and whether the PDF was written beside the SVG.
\<close>

record 'a page =
  page_no :: nat
  page_labels :: "'a list"
  horizontal_guides :: "guide list"
  vertical_guides :: "guide list"
  WIDTH :: int
  HEIGHT :: int
  pdf :: bool

text \<open>
  The page loop of \<^verbatim>\<open>generate_labels\<close>, from \<^verbatim>\<open>page = 1\<close>: the list of the files it
  writes, in the order it writes them.
\<close>

function write_pages ::
  "LabelGenerator \<Rightarrow> bool \<Rightarrow> 'a label list \<Rightarrow> nat \<Rightarrow> 'a label page list" where
  "write_pages g cairosvg_mod labels page =
     (if labels = [] then []
      else (case fill_page (ROWS * COLS) labels [] of
              (rest, exps) \<Rightarrow>
                \<lparr>page_no = page,
                 page_labels = exps,
                 horizontal_guides = create_horizontal_cutting_guides g,
                 vertical_guides = create_vertical_cutting_guides g,
                 WIDTH = width g,
                 HEIGHT = height g,
                 pdf = (cairosvg_mod \<and> generate_pdfs g)\<rparr>
                # write_pages g cairosvg_mod rest (page + 1)))"
  by pat_completeness auto
termination
proof (relation "measure (\<lambda>(g, c, labels, page). length labels)")
  show "wf (measure (\<lambda>(g :: LabelGenerator, c :: bool, labels :: 'a label list, page :: nat).
    length labels))"
    by simp
next
  fix g :: LabelGenerator and cairosvg_mod :: bool and labels :: "'a label list"
    and page :: nat and rest exps :: "'a label list"
  assume ne: "labels \<noteq> []"
    and split: "(rest, exps) = fill_page (ROWS * COLS) labels []"
  have step: "length (fst (fill_page n ls es)) \<le> length ls
      \<and> (length es < n \<and> ls \<noteq> [] \<longrightarrow> length (fst (fill_page n ls es)) < length ls)"
    for n and ls es :: "'a label list"
  proof (induction ls arbitrary: es)
    case Nil
    show ?case by simp
  next
    case (Cons l ls)
    from Cons.IH [of "es @ [l]"] show ?case
      by (simp add: le_imp_less_Suc le_SucI)
  qed
  from split have rest: "rest = fst (fill_page (ROWS * COLS) labels [])"
    by (metis fst_conv)
  from ne step [of "ROWS * COLS" labels "[]"]
  have "length rest < length labels"
    unfolding rest by (simp add: ROWS_def COLS_def)
  then show "((g, cairosvg_mod, rest, page + 1), (g, cairosvg_mod, labels, page))
      \<in> measure (\<lambda>(g, c, labels, page). length labels)"
    by simp
qed

declare write_pages.simps [simp del]

subsection \<open>Wide grid layout\<close>

text \<open>
  A wide label is \<^verbatim>\<open>{**item, "x": x, "y": y, "width": cell_w, "_page": page_index}\<close>. Its
  \<^verbatim>\<open>x\<close> and \<^verbatim>\<open>width\<close> are integers, its \<^verbatim>\<open>y\<close> is a float.
\<close>

record 'a wide_label =
  wide_item :: 'a
  wide_x :: int
  wide_y :: real
  wide_width :: int
  wide_page :: nat

text \<open>
  The loop of \<^verbatim>\<open>layout_wide_labels\<close> over \<^verbatim>\<open>enumerate(raw_items)\<close>, for the column
  count \<open>cols\<close> computed before it.
\<close>

fun layout_wide_labels_loop ::
  "LabelGenerator \<Rightarrow> nat \<Rightarrow> nat \<Rightarrow> 'a list \<Rightarrow> 'a wide_label list" where
  "layout_wide_labels_loop g cols idx [] = []"
| "layout_wide_labels_loop g cols idx (item # raw_items) =
     (let cell_w = WIDE_LABEL_MM * 10;
          col = idx mod cols;
          row = (idx div cols) mod ROWS;
          page_index = idx div (cols * ROWS);
          x = START_X + int col * cell_w;
          y = real_of_int START_Y + real row * delta_y g
      in \<lparr>wide_item = item, wide_x = x, wide_y = y, wide_width = cell_w,
          wide_page = page_index\<rparr>
         # layout_wide_labels_loop g cols (idx + 1) raw_items)"

text \<open>
  \<^verbatim>\<open>layout_wide_labels\<close>: \<^verbatim>\<open>cols = max(1, int(usable // cell_w))\<close>, on integers, where
  \<^verbatim>\<open>//\<close> rounds down as \<open>div\<close> on \<^typ>\<open>int\<close> does. The count is at least one, so it is kept
  as a \<^typ>\<open>nat\<close>. The method stores it in \<^verbatim>\<open>self._wide_cols\<close> and returns the labels.
\<close>

definition layout_wide_labels ::
  "LabelGenerator \<Rightarrow> 'a list \<Rightarrow> LabelGenerator \<times> 'a wide_label list" where
  "layout_wide_labels g raw_items =
     (let cell_w = WIDE_LABEL_MM * 10;
          usable = width g - 2 * MARGIN g;
          cols = nat (max 1 (usable div cell_w))
      in (g\<lparr>wide_cols := Some cols\<rparr>, layout_wide_labels_loop g cols 0 raw_items))"

text \<open>
  The page loop of \<^verbatim>\<open>generate_color_set_mode\<close>. Its page size is a variable: with
  \<open>per_page = 0\<close> the inner loop takes nothing and the outer loop never ends, which is
  the value \<open>None\<close>.
\<close>

partial_function (option) write_wide_pages ::
  "LabelGenerator \<Rightarrow> bool \<Rightarrow> nat \<Rightarrow> 'a list \<Rightarrow> nat \<Rightarrow> 'a page list option" where
  "write_wide_pages g cairosvg_mod per_page laid_out page =
     (if laid_out = [] then Some []
      else (case fill_page per_page laid_out [] of
              (rest, batch) \<Rightarrow>
                Option.bind (write_wide_pages g cairosvg_mod per_page rest (page + 1))
                  (\<lambda>pages.
                     Some (\<lparr>page_no = page,
                            page_labels = batch,
                            horizontal_guides = create_horizontal_cutting_guides g,
                            vertical_guides = wide_vertical_guides g,
                            WIDTH = width g,
                            HEIGHT = height g,
                            pdf = (cairosvg_mod \<and> generate_pdfs g)\<rparr> # pages))))"

declare write_wide_pages.simps [code]

section \<open>The catalog service\<close>

text \<open>
  What the run reads from outside: the two Scryfall endpoints (\<open>None\<close> when the request,
  \<^verbatim>\<open>raise_for_status\<close> or the decoding raises), the icon requests, the date parser of the
  standard library (\<open>None\<close> is its \<^verbatim>\<open>ValueError\<close>), and whether \<^verbatim>\<open>cairosvg\<close> imports.
\<close>

type_synonym date = "nat \<times> nat \<times> nat"

record set_record =
  exp_code :: string
  exp_name :: string
  card_count :: int
  set_type :: string
  released_at :: string
  icon_svg_uri :: string

record symbol_record =
  symbol :: "string option"
  svg_uri :: "string option"

text \<open>
  An icon response: the request raised, or it returned with its \<^verbatim>\<open>ok\<close> flag and the
  base64 text of its content.
\<close>

datatype response = ConnectionError | Response bool string

record scryfall =
  sets_api :: "set_record list option"
  symbology_api :: "symbol_record list option"
  icon_get :: "string \<Rightarrow> response"
  strptime :: "string \<Rightarrow> date option"
  cairosvg :: bool

section \<open>Selection and raw labels\<close>

text \<open>
  The loop of \<^verbatim>\<open>get_set_data\<close> over the catalog: the four tests of its \<^verbatim>\<open>if\<close>/\<^verbatim>\<open>elif\<close>
  chain, in the order of the source. An empty tuple or list is false in Python.
\<close>

fun select_sets :: "LabelGenerator \<Rightarrow> set_record list \<Rightarrow> set_record list" where
  "select_sets g [] = []"
| "select_sets g (ex # data) =
     (if exp_code ex \<in> set (ignored_sets g) then select_sets g data
      else if card_count ex < minimum_set_size g then select_sets g data
      else if set_types g \<noteq> [] \<and> set_type ex \<notin> set (set_types g) then select_sets g data
      else if set_codes g \<noteq> [] \<and> lower (exp_code ex) \<notin> set (set_codes g)
        then select_sets g data
      else ex # select_sets g data)"

text \<open>
  \<^verbatim>\<open>get_set_data\<close> returns the selected records reversed; beside them stands the set of
  codes it warns about (\<^verbatim>\<open>log.warning("Unknown set '%s'", set_code)\<close>), which Python
  iterates in no fixed order.
\<close>

definition get_set_data ::
  "scryfall \<Rightarrow> LabelGenerator \<Rightarrow> error + (set_record list \<times> string set)" where
  "get_set_data w g =
     (case sets_api w of
        None \<Rightarrow> Inl RequestException
      | Some data \<Rightarrow>
          (let set_data = select_sets g data;
               unknown_sets =
                 (if set_codes g \<noteq> []
                  then set (map lower (set_codes g)) - set (map exp_code data)
                  else {})
           in Inr (rev set_data, unknown_sets)))"

record raw_label =
  name :: string
  code :: string
  date :: "date option"
  icon_url :: string
  icon_b64 :: "string option"

text \<open>The loop of \<^verbatim>\<open>get_set_label_raw\<close> over the selected records.\<close>

fun set_label_loop :: "scryfall \<Rightarrow> set_record list \<Rightarrow> error + raw_label list" where
  "set_label_loop w [] = Inr []"
| "set_label_loop w (ex # set_data) =
     (let name0 = rename_set (exp_name ex)
      in case icon_get w (icon_svg_uri ex) of
           ConnectionError \<Rightarrow> Inl RequestException
         | Response ok content \<Rightarrow>
             (case strptime w (released_at ex) of
                None \<Rightarrow> Inl ValueError
              | Some d \<Rightarrow>
                  (case set_label_loop w set_data of
                     Inl e \<Rightarrow> Inl e
                   | Inr raw \<Rightarrow>
                       Inr (\<lparr>name = name0,
                             code = exp_code ex,
                             date = Some d,
                             icon_url = icon_svg_uri ex,
                             icon_b64 = (if ok then Some content else None)\<rparr> # raw))))"

definition get_set_label_raw :: "scryfall \<Rightarrow> LabelGenerator \<Rightarrow> error + raw_label list" where
  "get_set_label_raw w g =
     (case get_set_data w g of
        Inl e \<Rightarrow> Inl e
      | Inr (set_data, unknown_sets) \<Rightarrow> set_label_loop w set_data)"

text \<open>
  \<^verbatim>\<open>get_color_label_raw\<close>. The dictionary comprehension keeps the items with a
  non-empty \<^verbatim>\<open>svg_uri\<close>, keyed by \<^verbatim>\<open>symbol.strip("{}")\<close>, a later item replacing an
  earlier one; an item without \<^verbatim>\<open>symbol\<close> raises inside the \<^verbatim>\<open>try\<close>, and the method
  then returns no label. The icon requests stand outside the \<^verbatim>\<open>try\<close>.
\<close>

definition truthy :: "string option \<Rightarrow> bool" where
  "truthy v = (case v of None \<Rightarrow> False | Some s \<Rightarrow> s \<noteq> [])"

definition strip_braces :: "string \<Rightarrow> string" where
  "strip_braces s =
     (let brace = (\<lambda>c. c = CHR ''{'' \<or> c = CHR ''}'')
      in rev (dropWhile brace (rev (dropWhile brace s))))"

fun symbol_map_loop ::
  "symbol_record list \<Rightarrow> (string \<rightharpoonup> symbol_record) \<Rightarrow> (string \<rightharpoonup> symbol_record) option" where
  "symbol_map_loop [] m = Some m"
| "symbol_map_loop (item # data) m =
     (if truthy (svg_uri item)
      then (case symbol item of
              None \<Rightarrow> None
            | Some s \<Rightarrow> symbol_map_loop data (m(strip_braces s \<mapsto> item)))
      else symbol_map_loop data m)"

fun color_label_loop ::
  "scryfall \<Rightarrow> (string \<rightharpoonup> symbol_record) \<Rightarrow> (string \<times> string) list \<Rightarrow> error + raw_label list" where
  "color_label_loop w m [] = Inr []"
| "color_label_loop w m ((code0, name0) # rest) =
     (case m code0 of
        None \<Rightarrow> color_label_loop w m rest
      | Some info \<Rightarrow>
          (case svg_uri info of
             None \<Rightarrow> Inl KeyError
           | Some uri \<Rightarrow>
               (case icon_get w uri of
                  ConnectionError \<Rightarrow> Inl RequestException
                | Response ok content \<Rightarrow>
                    (case color_label_loop w m rest of
                       Inl e \<Rightarrow> Inl e
                     | Inr raw \<Rightarrow>
                         Inr (\<lparr>name = name0,
                               code = code0,
                               date = None,
                               icon_url = uri,
                               icon_b64 = (if ok then Some content else None)\<rparr> # raw)))))"

definition get_color_label_raw :: "scryfall \<Rightarrow> error + raw_label list" where
  "get_color_label_raw w =
     (case symbology_api w of
        None \<Rightarrow> Inr []
      | Some data \<Rightarrow>
          (case symbol_map_loop data Map.empty of
             None \<Rightarrow> Inr []
           | Some m \<Rightarrow> color_label_loop w m COLOR_SYMBOLS))"

section \<open>The two generators\<close>

text \<open>
  The block both \<^verbatim>\<open>generate_labels\<close> and \<^verbatim>\<open>generate_color_set_mode\<close> start with:
  \<^verbatim>\<open>if sets:\<close> empties the ignore list and the set types, sets the minimum size to zero
  and stores the codes in lower case. \<^verbatim>\<open>None\<close> and the empty list are both false.
\<close>

definition narrow_to_sets :: "string list option \<Rightarrow> LabelGenerator \<Rightarrow> LabelGenerator" where
  "narrow_to_sets sets g =
     (case sets of
        None \<Rightarrow> g
      | Some codes \<Rightarrow>
          if codes = [] then g
          else g\<lparr>ignored_sets := [],
                 minimum_set_size := 0,
                 set_types := [],
                 set_codes := map lower codes\<rparr>)"

text \<open>
  The items \<^verbatim>\<open>generate_labels\<close> lays out: the colour labels when they were asked for,
  then the set labels. An exception of either request ends the call.
\<close>

definition collect_raw_items :: "scryfall \<Rightarrow> LabelGenerator \<Rightarrow> error + raw_label list" where
  "collect_raw_items w g =
     (case (if include_color_labels g then get_color_label_raw w else Inr []) of
        Inl e \<Rightarrow> Inl e
      | Inr color_items \<Rightarrow>
          (case get_set_label_raw w g of
             Inl e \<Rightarrow> Inl e
           | Inr set_items \<Rightarrow> Inr (color_items @ set_items)))"

text \<open>
  \<^verbatim>\<open>generate_labels\<close> returns nothing; the model returns the generator as the call leaves
  it and either the exception that ended the call or the pages written.
\<close>

definition generate_labels ::
  "scryfall \<Rightarrow> string list option \<Rightarrow> LabelGenerator
     \<Rightarrow> LabelGenerator \<times> (error + raw_label label page list)" where
  "generate_labels w sets g0 =
     (let g = narrow_to_sets sets g0;
          cairosvg_mod = (if generate_pdfs g then cairosvg w else False)
      in (g,
          case collect_raw_items w g of
            Inl e \<Rightarrow> Inl e
          | Inr raw_items \<Rightarrow>
              Inr (write_pages g cairosvg_mod (layout_labels g raw_items) 1)))"

record wide_raw_label =
  set_name :: string
  set_code :: string
  set_icon_b64 :: "string option"
  color_code :: string
  color_name :: string
  color_icon_b64 :: "string option"

text \<open>The inner loop of \<^verbatim>\<open>generate_color_set_mode\<close> over \<^verbatim>\<open>COLOR_SYMBOLS\<close>.\<close>

fun color_rows ::
  "(string \<rightharpoonup> raw_label) \<Rightarrow> string \<Rightarrow> string \<Rightarrow> string option \<Rightarrow> (string \<times> string) list
     \<Rightarrow> wide_raw_label list" where
  "color_rows color_map set_name0 set_code0 icon [] = []"
| "color_rows color_map set_name0 set_code0 icon ((code0, cname) # rest) =
     (case color_map code0 of
        None \<Rightarrow> color_rows color_map set_name0 set_code0 icon rest
      | Some cinfo \<Rightarrow>
          \<lparr>set_name = set_name0,
           set_code = set_code0,
           set_icon_b64 = icon,
           color_code = code0,
           color_name = name cinfo,
           color_icon_b64 = icon_b64 cinfo\<rparr>
          # color_rows color_map set_name0 set_code0 icon rest)"

text \<open>
  Its outer loop over the selected records, with \<^verbatim>\<open>set_icon_cache\<close>: the icon of a code
  is requested once.
\<close>

fun color_set_loop ::
  "scryfall \<Rightarrow> (string \<rightharpoonup> raw_label) \<Rightarrow> (string \<rightharpoonup> string option) \<Rightarrow> set_record list
     \<Rightarrow> error + wide_raw_label list" where
  "color_set_loop w color_map set_icon_cache [] = Inr []"
| "color_set_loop w color_map set_icon_cache (ex # set_data) =
     (let set_name0 = rename_set (exp_name ex)
      in case (case set_icon_cache (exp_code ex) of
                 Some b \<Rightarrow> Inr (set_icon_cache, b)
               | None \<Rightarrow>
                   (case icon_get w (icon_svg_uri ex) of
                      ConnectionError \<Rightarrow> Inl RequestException
                    | Response ok content \<Rightarrow>
                        (let b = (if ok then Some content else None)
                         in Inr (set_icon_cache(exp_code ex \<mapsto> b), b)))) of
           Inl e \<Rightarrow> Inl e
         | Inr (cache, set_icon) \<Rightarrow>
             (case color_set_loop w color_map cache set_data of
                Inl e \<Rightarrow> Inl e
              | Inr raw \<Rightarrow>
                  Inr (color_rows color_map set_name0 (exp_code ex) set_icon COLOR_SYMBOLS
                       @ raw)))"

text \<open>
  The items \<^verbatim>\<open>generate_color_set_mode\<close> lays out: one per selected set and colour
  found, the sets in the order of \<^verbatim>\<open>get_set_data\<close>.
\<close>

definition collect_labels_raw ::
  "scryfall \<Rightarrow> LabelGenerator \<Rightarrow> error + wide_raw_label list" where
  "collect_labels_raw w g =
     (case get_color_label_raw w of
        Inl e \<Rightarrow> Inl e
      | Inr color_entries \<Rightarrow>
          (let color_map = foldl (\<lambda>m e. m(code e \<mapsto> e)) Map.empty color_entries
           in case get_set_data w g of
                Inl e \<Rightarrow> Inl e
              | Inr (set_data, unknown_sets) \<Rightarrow>
                  color_set_loop w color_map Map.empty set_data))"

text \<open>
  \<^verbatim>\<open>generate_color_set_mode\<close>. \<open>None\<close> is a call that does not return; otherwise the
  generator as the call leaves it, and the exception or the pages written. The page size
  is \<^verbatim>\<open>getattr(self, "_wide_cols", self.COLS) * self.ROWS\<close>.
\<close>

definition generate_color_set_mode ::
  "scryfall \<Rightarrow> string list option \<Rightarrow> LabelGenerator
     \<Rightarrow> (LabelGenerator \<times> (error + wide_raw_label wide_label page list)) option" where
  "generate_color_set_mode w sets g0 =
     (let g = narrow_to_sets sets g0
      in case collect_labels_raw w g of
           Inl e \<Rightarrow> Some (g, Inl e)
         | Inr labels_raw \<Rightarrow>
             (case layout_wide_labels g labels_raw of
                (g', laid_out) \<Rightarrow>
                  (let cairosvg_mod = (if generate_pdfs g' then cairosvg w else False);
                       per_page = (case wide_cols g' of None \<Rightarrow> COLS | Some c \<Rightarrow> c) * ROWS
                   in map_option (\<lambda>pages. (g', Inr pages))
                        (write_wide_pages g' cairosvg_mod per_page laid_out 1))))"

section \<open>Example inputs\<close>

text \<open>
  A small catalog in the order the service returns it (newest first), two colour symbols,
  icon requests that all succeed, and the generator \<^verbatim>\<open>LabelGenerator()\<close> of the defaults.
\<close>

definition demo_catalog :: "set_record list" where
  "demo_catalog =
     [\<lparr>exp_code = ''mh1'', exp_name = ''Modern Horizons'', card_count = 255,
       set_type = ''draft_innovation'', released_at = ''2019-06-14'',
       icon_svg_uri = ''https://svgs.scryfall.io/sets/mh1.svg''\<rparr>,
      \<lparr>exp_code = ''cmb1'', exp_name = ''Mystery Booster Playtest Cards 2019'', card_count = 121,
       set_type = ''funny'', released_at = ''2019-11-07'',
       icon_svg_uri = ''https://svgs.scryfall.io/sets/cmb1.svg''\<rparr>,
      \<lparr>exp_code = ''pmei'', exp_name = ''Media and Collaboration Promos'', card_count = 40,
       set_type = ''promo'', released_at = ''1995-01-01'',
       icon_svg_uri = ''https://svgs.scryfall.io/sets/star.svg''\<rparr>,
      \<lparr>exp_code = ''lea'', exp_name = ''Limited Edition Alpha'', card_count = 295,
       set_type = ''core'', released_at = ''1993-08-05'',
       icon_svg_uri = ''https://svgs.scryfall.io/sets/lea.svg''\<rparr>]"

definition demo_symbology :: "symbol_record list" where
  "demo_symbology =
     [\<lparr>symbol = Some ''{W}'', svg_uri = Some ''https://svgs.scryfall.io/card-symbols/W.svg''\<rparr>,
      \<lparr>symbol = Some ''{U}'', svg_uri = Some ''https://svgs.scryfall.io/card-symbols/U.svg''\<rparr>]"

definition demo_scryfall :: scryfall where
  "demo_scryfall =
     \<lparr>sets_api = Some demo_catalog,
      symbology_api = Some demo_symbology,
      icon_get = (\<lambda>uri. Response True ''PHN2Zy8+''),
      strptime = (\<lambda>s. if s = ''2019-06-14'' then Some (2019, 6, 14)
                      else if s = ''1993-08-05'' then Some (1993, 8, 5)
                      else if s = ''2019-11-07'' then Some (2019, 11, 7)
                      else if s = ''1995-01-01'' then Some (1995, 1, 1)
                      else None),
      cairosvg = False\<rparr>"

definition letter_generator :: LabelGenerator where
  "letter_generator = projr (init DEFAULT_PAPER_SIZE ''output'' True False False None)"



section \<open>Properties of the layout and of the page loop\<close>

lemma layout_labels_loop_length:
  "length (layout_labels_loop g idx raw_items) = length raw_items"
  by (induction raw_items arbitrary: idx) (simp_all add: Let_def)

lemma layout_labels_loop_nth:
  "i < length raw_items \<Longrightarrow>
   layout_labels_loop g idx raw_items ! i =
     \<lparr>label_item = raw_items ! i,
      label_x = real_of_int START_X + real (((idx + i) div ROWS) mod COLS) * delta_x g,
      label_y = real_of_int START_Y + real ((idx + i) mod ROWS) * delta_y g\<rparr>"
proof (induction raw_items arbitrary: idx i)
  case Nil
  then show ?case by simp
next
  case (Cons item raw_items)
  show ?case
  proof (cases i)
    case 0
    then show ?thesis by (simp add: Let_def)
  next
    case (Suc j)
    with Cons.prems have "j < length raw_items" by simp
    from Cons.IH [OF this, of "idx + 1"] Suc show ?thesis
      by (simp add: Let_def)
  qed
qed

lemma fill_page_eq:
  "fill_page per_page labels exps =
     (drop (per_page - length exps) labels, exps @ take (per_page - length exps) labels)"
proof (induction labels arbitrary: exps)
  case Nil
  show ?case by simp
next
  case (Cons l labels)
  show ?case
  proof (cases "length exps < per_page")
    case True
    then obtain k where k: "per_page - length exps = Suc k"
      by (metis Suc_diff_Suc)
    then have "per_page - length (exps @ [l]) = k" by simp
    with Cons.IH [of "exps @ [l]"] k True show ?thesis by simp
  next
    case False
    then show ?thesis by simp
  qed
qed

lemma write_pages_Nil: "write_pages g c [] page = []"
  by (subst write_pages.simps) simp

lemma per_page_pos: "0 < ROWS * COLS"
  by (simp add: ROWS_def COLS_def)

lemma ceil_div_step:
  fixes m n :: nat
  assumes "0 < n" and "0 < m"
  shows "Suc ((m - n + (n - 1)) div n) = (m + (n - 1)) div n"
proof (cases "n \<le> m")
  case True
  with assms have "m + (n - 1) = (m - n + (n - 1)) + n" by simp
  then have "(m + (n - 1)) div n = (m - n + (n - 1)) div n + 1"
    using assms(1) by (metis div_add_self2 less_numeral_extra(3))
  then show ?thesis by simp
next
  case False
  with assms have "(m - n + (n - 1)) div n = 0" by simp
  moreover from False assms have "(m + (n - 1)) div n = 1"
    by (intro div_nat_eqI) simp_all
  ultimately show ?thesis by simp
qed

lemma write_pages_Cons:
  "labels \<noteq> [] \<Longrightarrow>
   write_pages g c labels page =
     \<lparr>page_no = page,
      page_labels = take (ROWS * COLS) labels,
      horizontal_guides = create_horizontal_cutting_guides g,
      vertical_guides = create_vertical_cutting_guides g,
      WIDTH = width g,
      HEIGHT = height g,
      pdf = (c \<and> generate_pdfs g)\<rparr>
     # write_pages g c (drop (ROWS * COLS) labels) (page + 1)"
  by (subst write_pages.simps) (simp add: fill_page_eq)

lemma write_pages_length:
  "length (write_pages g c labels page) = (length labels + (ROWS * COLS - 1)) div (ROWS * COLS)"
proof (induction "length labels" arbitrary: labels page rule: less_induct)
  case less
  show ?case
  proof (cases "labels = []")
    case True
    have "(ROWS * COLS - 1) div (ROWS * COLS) = 0"
      using per_page_pos by simp
    with True show ?thesis by (simp add: write_pages_Nil)
  next
    case False
    then have "length (drop (ROWS * COLS) labels) < length labels"
      using per_page_pos by simp
    from less [OF this, of "page + 1"]
    have "length (write_pages g c labels page)
        = Suc ((length labels - ROWS * COLS + (ROWS * COLS - 1)) div (ROWS * COLS))"
      using False by (simp add: write_pages_Cons)
    also have "\<dots> = (length labels + (ROWS * COLS - 1)) div (ROWS * COLS)"
      using False per_page_pos by (intro ceil_div_step) simp_all
    finally show ?thesis .
  qed
qed

lemma write_pages_nth:
  "k < length (write_pages g c labels page) \<Longrightarrow>
   write_pages g c labels page ! k =
     \<lparr>page_no = page + k,
      page_labels = take (ROWS * COLS) (drop (k * (ROWS * COLS)) labels),
      horizontal_guides = create_horizontal_cutting_guides g,
      vertical_guides = create_vertical_cutting_guides g,
      WIDTH = width g,
      HEIGHT = height g,
      pdf = (c \<and> generate_pdfs g)\<rparr>"
proof (induction k arbitrary: labels page)
  case 0
  then have "labels \<noteq> []" by (auto simp: write_pages_Nil)
  then show ?case by (simp add: write_pages_Cons)
next
  case (Suc k)
  then have ne: "labels \<noteq> []" by (auto simp: write_pages_Nil)
  with Suc.prems have "k < length (write_pages g c (drop (ROWS * COLS) labels) (page + 1))"
    by (simp add: write_pages_Cons)
  from Suc.IH [OF this] ne show ?case
    by (simp add: write_pages_Cons add.commute)
qed

lemma write_pages_concat:
  "concat (map page_labels (write_pages g c labels page)) = labels"
proof (induction "length labels" arbitrary: labels page rule: less_induct)
  case less
  show ?case
  proof (cases "labels = []")
    case True
    then show ?thesis by (simp add: write_pages_Nil)
  next
    case False
    then have "length (drop (ROWS * COLS) labels) < length labels"
      using per_page_pos by simp
    from less [OF this, of "page + 1"] False show ?thesis
      by (simp add: write_pages_Cons)
  qed
qed

lemma layout_labels_length: "length (layout_labels g raw_items) = length raw_items"
  by (simp add: layout_labels_def layout_labels_loop_length)

lemma layout_labels_nth:
  "i < length raw_items \<Longrightarrow>
   layout_labels g raw_items ! i =
     \<lparr>label_item = raw_items ! i,
      label_x = real_of_int START_X + real ((i div ROWS) mod COLS) * delta_x g,
      label_y = real_of_int START_Y + real (i mod ROWS) * delta_y g\<rparr>"
  using layout_labels_loop_nth [of i raw_items g 0] by (simp add: layout_labels_def)

lemma grid_index_decomp:
  fixes i r c :: nat
  shows "i = (i div (r * c)) * (r * c) + ((i div r) mod c) * r + i mod r"
proof -
  have "i div r = (i div r div c) * c + (i div r) mod c" by simp
  moreover have "i div r div c = i div (r * c)" by (simp add: div_mult2_eq)
  ultimately have "i div r = (i div (r * c)) * c + (i div r) mod c" by simp
  then have "(i div r) * r = ((i div (r * c)) * c + (i div r) mod c) * r" by simp
  also have "\<dots> = (i div (r * c)) * (r * c) + ((i div r) mod c) * r"
    by (simp add: algebra_simps)
  finally have "(i div r) * r + i mod r
      = (i div (r * c)) * (r * c) + ((i div r) mod c) * r + i mod r" by simp
  then show ?thesis by simp
qed

lemma grid_cell_inj:
  fixes i j r c :: nat
  assumes "i div (r * c) = j div (r * c)" and "(i div r) mod c = (j div r) mod c"
    and "i mod r = j mod r"
  shows "i = j"
  using grid_index_decomp [of i r c] grid_index_decomp [of j r c] assms by simp

lemma chunk_nth:
  fixes p :: nat
  assumes "0 < p" and "i < length xs"
  shows "take p (drop ((i div p) * p) xs) ! (i mod p) = xs ! i"
proof -
  from assms(1) have "i mod p < p" by simp
  moreover have "(i div p) * p + i mod p = i" by simp
  moreover from assms(2) have "(i div p) * p \<le> length xs"
    by (metis calculation(2) le_add1 less_or_eq_imp_le order_trans)
  ultimately show ?thesis by simp
qed

lemma write_pages_holds:
  assumes "i < length labels"
  shows "i div (ROWS * COLS) < length (write_pages g c labels page)"
proof -
  have "i div (ROWS * COLS) < (length labels + (ROWS * COLS - 1)) div (ROWS * COLS)"
  proof -
    from assms have "i + 1 \<le> length labels" by simp
    then have "i + (ROWS * COLS) \<le> length labels + (ROWS * COLS - 1)"
      using per_page_pos by simp
    then have "(i + (ROWS * COLS)) div (ROWS * COLS)
        \<le> (length labels + (ROWS * COLS - 1)) div (ROWS * COLS)"
      by (rule div_le_mono)
    moreover have "(i + (ROWS * COLS)) div (ROWS * COLS) = Suc (i div (ROWS * COLS))"
      using per_page_pos by simp
    ultimately show ?thesis by simp
  qed
  then show ?thesis by (simp add: write_pages_length)
qed

lemma write_pages_item:
  assumes "i < length labels"
  shows "page_labels (write_pages g c labels page ! (i div (ROWS * COLS))) ! (i mod (ROWS * COLS))
    = labels ! i"
  using write_pages_nth [OF write_pages_holds [OF assms]] chunk_nth [OF per_page_pos assms]
  by simp

lemma ceil_div_nat:
  fixes n p :: nat
  assumes "0 < p"
  shows "nat \<lceil>real n / real p\<rceil> = (n + (p - 1)) div p"
proof -
  define q where "q = (n + (p - 1)) div p"
  have "n + (p - 1) < q * p + p"
    unfolding q_def using assms dividend_less_div_times [of p "n + (p - 1)"] by (simp add: mult.commute)
  with assms have a: "n \<le> q * p" by simp
  have "q * p \<le> n + (p - 1)"
    unfolding q_def by simp
  with assms have b: "q * p < n + p" by simp
  from a have "real n \<le> real (q * p)" by (simp only: of_nat_le_iff)
  with assms have upper: "real n / real p \<le> of_int (int q)"
    by (simp add: divide_le_eq)
  from b have "real (q * p) < real (n + p)" by (simp only: of_nat_less_iff)
  then have "(real q - 1) * real p < real n" by (simp add: algebra_simps)
  with assms have lower: "of_int (int q) - 1 < real n / real p"
    by (simp add: less_divide_eq)
  from lower upper have "\<lceil>real n / real p\<rceil> = int q" by (rule ceiling_unique)
  then show ?thesis by (simp add: q_def)
qed

lemma generate_labels_result:
  assumes "collect_raw_items w (narrow_to_sets sets g0) = Inr raw_items"
  shows "generate_labels w sets g0 =
    (narrow_to_sets sets g0,
     Inr (write_pages (narrow_to_sets sets g0)
            (generate_pdfs (narrow_to_sets sets g0) \<and> cairosvg w)
            (layout_labels (narrow_to_sets sets g0) raw_items) 1))"
  using assms by (simp add: generate_labels_def Let_def)

lemma write_pages_full:
  assumes "Suc k < length (write_pages g c labels page)"
  shows "length (page_labels (write_pages g c labels page ! k)) = ROWS * COLS"
proof -
  from assms have "Suc k < (length labels + (ROWS * COLS - 1)) div (ROWS * COLS)"
    by (simp add: write_pages_length)
  then have "Suc (Suc k) \<le> (length labels + (ROWS * COLS - 1)) div (ROWS * COLS)" by simp
  then have "Suc (Suc k) * (ROWS * COLS) \<le> length labels + (ROWS * COLS - 1)"
    using per_page_pos by (simp only: less_eq_div_iff_mult_less_eq)
  then have "k * (ROWS * COLS) + ROWS * COLS \<le> length labels"
    using per_page_pos by simp
  moreover from assms have "k < length (write_pages g c labels page)" by simp
  ultimately show ?thesis
    by (simp add: write_pages_nth)
qed

lemma div_chunk_rem:
  fixes q r p :: nat
  assumes "r < p"
  shows "(q * p + r) div p = q"
  using assms by (metis add.commute div_less div_mult_self3 add_cancel_left_left less_nat_zero_code)

lemma write_pages_last:
  assumes "write_pages g c labels page \<noteq> []"
  shows "length (page_labels (last (write_pages g c labels page))) =
    (if length labels mod (ROWS * COLS) = 0 then ROWS * COLS else length labels mod (ROWS * COLS))"
proof -
  define P where "P = ROWS * COLS"
  define n where "n = length labels"
  have P: "0 < P" unfolding P_def by (rule per_page_pos)
  define m where "m = length (write_pages g c labels page)"
  have m: "m = (n + (P - 1)) div P"
    unfolding m_def n_def P_def by (rule write_pages_length)
  from assms have m0: "0 < m" unfolding m_def by simp
  then have last: "last (write_pages g c labels page) = write_pages g c labels page ! (m - 1)"
    using assms by (simp add: last_conv_nth m_def)
  have "m - 1 < length (write_pages g c labels page)" using m0 by (simp add: m_def)
  from write_pages_nth [OF this]
  have len: "length (page_labels (last (write_pages g c labels page)))
      = min P (n - (m - 1) * P)"
    by (simp add: last P_def n_def min.commute)
  have n0: "0 < n" using m m0 P by (cases "n = 0") simp_all
  show ?thesis
  proof (cases "n mod P = 0")
    case True
    then have "P dvd n" by (simp add: mod_0_imp_dvd)
    then obtain q where q: "n = q * P" unfolding dvd_def by (auto simp: mult.commute)
    with n0 P have q0: "0 < q" by (cases q) simp_all
    have "(q * P + (P - 1)) div P = q" using P by (intro div_chunk_rem) simp
    with m q have "m = q" by simp
    with q q0 have "n - (m - 1) * P = P"
      by (simp add: diff_mult_distrib)
    with len True show ?thesis by (simp add: P_def n_def)
  next
    case False
    define q where "q = n div P"
    define r where "r = n mod P"
    have n: "n = q * P + r" by (simp add: q_def r_def)
    have r: "0 < r" "r < P" using False P by (simp_all add: r_def)
    have "(q * P + r + (P - 1)) div P = Suc q"
    proof -
      have "q * P + r + (P - 1) = Suc q * P + (r - 1)" using r by simp
      moreover have "(Suc q * P + (r - 1)) div P = Suc q"
        using r by (intro div_chunk_rem) simp
      ultimately show ?thesis by (simp only:)
    qed
    with m n have "m = Suc q" by simp
    with n have "n - (m - 1) * P = r" by simp
    with len r False show ?thesis by (simp add: P_def n_def r_def)
  qed
qed


lemma layout_labels_items: "map label_item (layout_labels g raw_items) = raw_items"
  by (rule nth_equalityI) (simp_all add: layout_labels_length layout_labels_nth)

lemma letter_generator_eq:
  "letter_generator =
     \<lparr>paper_size = ''letter'', portrait = False, set_codes = [], ignored_sets = IGNORED_SETS,
      set_types = SET_TYPES, minimum_set_size = 50, width = 2790, height = 2160, MARGIN = 100,
      delta_x = 1295 / 2, delta_y = 392 / 3, output_dir = ''output'', generate_pdfs = True,
      include_color_labels = False, wide_cols = None\<rparr>"
  by (simp add: letter_generator_def init_def DEFAULT_PAPER_SIZE_def PAPER_SIZES_def
      class_MARGIN_def MINIMUM_SET_SIZE_def ROWS_def COLS_def)

lemma demo_names_kept:
  "rename_set ''Limited Edition Alpha'' = ''Limited Edition Alpha''
   \<and> rename_set ''Modern Horizons'' = ''Modern Horizons''"
  by code_simp

lemma demo_get_set_data:
  "get_set_data demo_scryfall letter_generator = Inr ([demo_catalog ! 3, demo_catalog ! 0], {})"
  by (simp add: get_set_data_def demo_scryfall_def demo_catalog_def letter_generator_eq
      IGNORED_SETS_def SET_TYPES_def)

lemma demo_raw_items:
  "collect_raw_items demo_scryfall (narrow_to_sets None letter_generator) =
     Inr [\<lparr>name = ''Limited Edition Alpha'', code = ''lea'', date = Some (1993, 8, 5),
           icon_url = ''https://svgs.scryfall.io/sets/lea.svg'', icon_b64 = Some ''PHN2Zy8+''\<rparr>,
          \<lparr>name = ''Modern Horizons'', code = ''mh1'', date = Some (2019, 6, 14),
           icon_url = ''https://svgs.scryfall.io/sets/mh1.svg'', icon_b64 = Some ''PHN2Zy8+''\<rparr>]"
proof -
  note r1 = demo_names_kept [THEN conjunct1]
  note r2 = demo_names_kept [THEN conjunct2]
  have sel: "get_set_label_raw demo_scryfall letter_generator =
      set_label_loop demo_scryfall [demo_catalog ! 3, demo_catalog ! 0]"
    by (simp add: get_set_label_raw_def demo_get_set_data)
  have "include_color_labels letter_generator = False"
    by (simp add: letter_generator_eq)
  then have "collect_raw_items demo_scryfall (narrow_to_sets None letter_generator) =
      set_label_loop demo_scryfall [demo_catalog ! 3, demo_catalog ! 0]"
    by (simp add: collect_raw_items_def narrow_to_sets_def sel split: sum.splits)
  then show ?thesis
    by (simp add: demo_catalog_def demo_scryfall_def r1 r2)
qed

lemma layout_wide_labels_loop_length:
  "length (layout_wide_labels_loop g cols idx raw_items) = length raw_items"
  by (induction raw_items arbitrary: idx) (simp_all add: Let_def)

lemma layout_wide_labels_loop_nth:
  "i < length raw_items \<Longrightarrow>
   layout_wide_labels_loop g cols idx raw_items ! i =
     \<lparr>wide_item = raw_items ! i,
      wide_x = START_X + int ((idx + i) mod cols) * (WIDE_LABEL_MM * 10),
      wide_y = real_of_int START_Y + real (((idx + i) div cols) mod ROWS) * delta_y g,
      wide_width = WIDE_LABEL_MM * 10,
      wide_page = (idx + i) div (cols * ROWS)\<rparr>"
proof (induction raw_items arbitrary: idx i)
  case Nil
  then show ?case by simp
next
  case (Cons item raw_items)
  show ?case
  proof (cases i)
    case 0
    then show ?thesis by (simp add: Let_def)
  next
    case (Suc j)
    with Cons.prems have "j < length raw_items" by simp
    from Cons.IH [OF this, of "idx + 1"] Suc show ?thesis
      by (simp add: Let_def)
  qed
qed

lemma write_wide_pages_total:
  assumes "0 < per_page"
  shows "\<exists>pages. write_wide_pages g c per_page laid_out page = Some pages
      \<and> length pages = (length laid_out + (per_page - 1)) div per_page
      \<and> concat (map page_labels pages) = laid_out
      \<and> (\<forall>k<length pages.
            pages ! k =
              \<lparr>page_no = page + k,
               page_labels = take per_page (drop (k * per_page) laid_out),
               horizontal_guides = create_horizontal_cutting_guides g,
               vertical_guides = wide_vertical_guides g,
               WIDTH = width g,
               HEIGHT = height g,
               pdf = (c \<and> generate_pdfs g)\<rparr>)"
proof (induction "length laid_out" arbitrary: laid_out page rule: less_induct)
  case less
  show ?case
  proof (cases "laid_out = []")
    case True
    have "(per_page - 1) div per_page = 0" using assms by simp
    with True show ?thesis by (simp add: write_wide_pages.simps)
  next
    case False
    with assms have "length (drop per_page laid_out) < length laid_out" by simp
    from less [OF this, of "page + 1"]
    obtain pages where
      rec: "write_wide_pages g c per_page (drop per_page laid_out) (page + 1) = Some pages"
      and len: "length pages = (length laid_out - per_page + (per_page - 1)) div per_page"
      and cat: "concat (map page_labels pages) = drop per_page laid_out"
      and nth: "\<forall>k<length pages.
            pages ! k =
              \<lparr>page_no = page + 1 + k,
               page_labels = take per_page (drop (k * per_page) (drop per_page laid_out)),
               horizontal_guides = create_horizontal_cutting_guides g,
               vertical_guides = wide_vertical_guides g,
               WIDTH = width g,
               HEIGHT = height g,
               pdf = (c \<and> generate_pdfs g)\<rparr>"
      by auto
    define first where "first =
        \<lparr>page_no = page,
         page_labels = take per_page laid_out,
         horizontal_guides = create_horizontal_cutting_guides g,
         vertical_guides = wide_vertical_guides g,
         WIDTH = width g,
         HEIGHT = height g,
         pdf = (c \<and> generate_pdfs g)\<rparr>"
    have res: "write_wide_pages g c per_page laid_out page = Some (first # pages)"
      using False rec by (subst write_wide_pages.simps) (simp add: fill_page_eq first_def)
    have "length (first # pages) = (length laid_out + (per_page - 1)) div per_page"
      using len ceil_div_step [OF assms, of "length laid_out"] False by simp
    moreover have "concat (map page_labels (first # pages)) = laid_out"
      using cat by (simp add: first_def)
    moreover have "\<forall>k<length (first # pages).
            (first # pages) ! k =
              \<lparr>page_no = page + k,
               page_labels = take per_page (drop (k * per_page) laid_out),
               horizontal_guides = create_horizontal_cutting_guides g,
               vertical_guides = wide_vertical_guides g,
               WIDTH = width g,
               HEIGHT = height g,
               pdf = (c \<and> generate_pdfs g)\<rparr>"
    proof (intro allI impI)
      fix k
      assume k: "k < length (first # pages)"
      show "(first # pages) ! k =
              \<lparr>page_no = page + k,
               page_labels = take per_page (drop (k * per_page) laid_out),
               horizontal_guides = create_horizontal_cutting_guides g,
               vertical_guides = wide_vertical_guides g,
               WIDTH = width g,
               HEIGHT = height g,
               pdf = (c \<and> generate_pdfs g)\<rparr>"
      proof (cases k)
        case 0
        then show ?thesis by (simp add: first_def)
      next
        case (Suc j)
        with k have "j < length pages" by simp
        with nth Suc show ?thesis by (simp add: add.commute)
      qed
    qed
    ultimately show ?thesis using res by blast
  qed
qed

lemma wide_cols_value:
  "nat (max 1 ((width g - 2 * MARGIN g) div (WIDE_LABEL_MM * 10)))
     = nat (max 1 \<lfloor>real_of_int (width g - 2 * MARGIN g) / real_of_int (WIDE_LABEL_MM * 10)\<rfloor>)"
  by (simp only: floor_divide_of_int_eq)

lemma layout_wide_labels_cols:
  "fst (layout_wide_labels g raw_items) =
     g\<lparr>wide_cols := Some (nat (max 1 ((width g - 2 * MARGIN g) div (WIDE_LABEL_MM * 10))))\<rparr>"
  by (simp add: layout_wide_labels_def Let_def)

lemma chunk_members:
  fixes p :: nat
  assumes "l \<in> set (take p (drop (k * p) xs))"
  shows "\<exists>j<p. k * p + j < length xs \<and> l = xs ! (k * p + j)"
proof -
  from assms obtain j where j: "j < length (take p (drop (k * p) xs))"
    and l: "l = take p (drop (k * p) xs) ! j"
    by (auto simp: in_set_conv_nth)
  from j have "j < p" and "k * p + j < length xs" by auto
  moreover from this l have "l = xs ! (k * p + j)" by simp
  ultimately show ?thesis by blast
qed

lemma generate_color_set_mode_result:
  assumes "collect_labels_raw w (narrow_to_sets sets g0) = Inr labels_raw"
  shows "generate_color_set_mode w sets g0 =
    (case layout_wide_labels (narrow_to_sets sets g0) labels_raw of
       (g', laid_out) \<Rightarrow>
         map_option (\<lambda>pages. (g', Inr pages))
           (write_wide_pages g' (generate_pdfs g' \<and> cairosvg w)
              ((case wide_cols g' of None \<Rightarrow> COLS | Some c \<Rightarrow> c) * ROWS) laid_out 1))"
  using assms by (simp add: generate_color_set_mode_def Let_def split: prod.splits)

lemma demo_labels_raw:
  "collect_labels_raw demo_scryfall (narrow_to_sets None letter_generator) =
     Inr [\<lparr>set_name = ''Limited Edition Alpha'', set_code = ''lea'',
           set_icon_b64 = Some ''PHN2Zy8+'', color_code = ''W'', color_name = ''White'',
           color_icon_b64 = Some ''PHN2Zy8+''\<rparr>,
          \<lparr>set_name = ''Limited Edition Alpha'', set_code = ''lea'',
           set_icon_b64 = Some ''PHN2Zy8+'', color_code = ''U'', color_name = ''Blue'',
           color_icon_b64 = Some ''PHN2Zy8+''\<rparr>,
          \<lparr>set_name = ''Modern Horizons'', set_code = ''mh1'',
           set_icon_b64 = Some ''PHN2Zy8+'', color_code = ''W'', color_name = ''White'',
           color_icon_b64 = Some ''PHN2Zy8+''\<rparr>,
          \<lparr>set_name = ''Modern Horizons'', set_code = ''mh1'',
           set_icon_b64 = Some ''PHN2Zy8+'', color_code = ''U'', color_name = ''Blue'',
           color_icon_b64 = Some ''PHN2Zy8+''\<rparr>]"
proof -
  note r1 = demo_names_kept [THEN conjunct1]
  note r2 = demo_names_kept [THEN conjunct2]
  have colors: "get_color_label_raw demo_scryfall =
      Inr [\<lparr>name = ''White'', code = ''W'', date = None,
            icon_url = ''https://svgs.scryfall.io/card-symbols/W.svg'',
            icon_b64 = Some ''PHN2Zy8+''\<rparr>,
           \<lparr>name = ''Blue'', code = ''U'', date = None,
            icon_url = ''https://svgs.scryfall.io/card-symbols/U.svg'',
            icon_b64 = Some ''PHN2Zy8+''\<rparr>]"
    by (simp add: get_color_label_raw_def demo_scryfall_def demo_symbology_def truthy_def
        strip_braces_def COLOR_SYMBOLS_def)
  have sets: "get_set_data demo_scryfall (narrow_to_sets None letter_generator)
      = Inr ([demo_catalog ! 3, demo_catalog ! 0], {})"
    by (simp add: narrow_to_sets_def demo_get_set_data)
  show ?thesis
    unfolding collect_labels_raw_def colors sets
    by (simp add: Let_def demo_catalog_def demo_scryfall_def r1 r2 COLOR_SYMBOLS_def)
qed

lemma RENAME_SETS_key_marks:
  "map (\<lambda>(k, v). take 4 (drop 25 k)) RENAME_SETS =
     [''en R'', ''en R'', '' Us '', ''heme'', ''Bord'', ''e II'', '' for'', ''r'',
      ''lins'', ''dra'', ''moni'', ''lian'', ''the '', ''ezze'', ''rago'', ''ol B'',
      ''nste'', ''ning'', ''es v'', ''e vs'', ''ine '', ''ruk '', ''iora'', ''Eldr'',
      ''urse'', ''Nixi'', ''obli'', ''ento'', '' vs.'', ''gari'', ''ack '', ''u & '',
      ''niga'', ''et'', '' Aft'', ''ande'', ''omma'', ''Card'', ''Card'', ''Card'',
      ''itio'', ''on C'', '' Com'', ''es'', ''ers'', ''ebor'', '' and'', ''mast'',
      ''es M'', ''mand'', ''rtif'', ''er'', ''les '', ''n Co'', ''r'', ''er'', ''1997'',
      ''1998'', ''1999'', ''2000'', ''2001'', ''2002'', ''2003'', ''2004'']"
  by code_simp

lemma RENAME_SETS_value_marks:
  "map (\<lambda>(k, v). if k = v then None else Some (take 4 (drop 25 v))) RENAME_SETS =
     [Some '''', Some ''s'', Some '''', Some '''', Some '''', Some '''', Some ''te'',
      Some '''', Some '''', Some '''', Some '''', Some '''', Some ''n'', Some '''',
      Some '''', Some '''', Some '''', Some '''', Some '''', Some '''', Some '''',
      Some '''', Some '''', Some '''', Some '''', Some '''', Some '''', Some '''',
      Some ''xia'', None, Some '''', Some '''', Some '''', Some '''', Some '''', Some '''',
      Some ''C]'', Some '''', Some '''', Some '''', Some ''ils'', Some ''on ['',
      Some '' [C]'', Some '''', Some '''', Some '''', Some '''', Some '''', Some '''',
      Some '''', Some '''', Some '''', Some ''th'', Some ''n [C'', Some '''', Some '''',
      Some '''', Some '''', Some '''', Some '''', Some '''', Some '''', Some '''', Some '''']"
  by code_simp


lemma RENAME_SETS_values_not_keys:
  assumes "(k, v) \<in> set RENAME_SETS" and "k \<noteq> v"
  shows "take 4 (drop 25 v) \<notin> set (map (\<lambda>(k, v). take 4 (drop 25 k)) RENAME_SETS)"
proof -
  have marks: "\<forall>m\<in>set (map (\<lambda>(k, v). if k = v then None else Some (take 4 (drop 25 v)))
        RENAME_SETS).
      case m of None \<Rightarrow> True
      | Some y \<Rightarrow> y \<notin> set (map (\<lambda>(k, v). take 4 (drop 25 k)) RENAME_SETS)"
    unfolding RENAME_SETS_key_marks RENAME_SETS_value_marks by simp
  from assms(1)
  have "(\<lambda>(k, v). if k = v then None else Some (take 4 (drop 25 v))) (k, v)
      \<in> (\<lambda>(k, v). if k = v then None else Some (take 4 (drop 25 v))) ` set RENAME_SETS"
    by (rule imageI)
  with assms(2) have "Some (take 4 (drop 25 v))
      \<in> set (map (\<lambda>(k, v). if k = v then None else Some (take 4 (drop 25 v))) RENAME_SETS)"
    by (simp only: set_map split: prod.split) simp
  with marks show ?thesis by fastforce
qed

lemma vertical_guides_loop_length: "length (vertical_guides_loop g is) = 2 * length is"
  by (induction "is") simp_all

lemma vertical_guides_loop_nth:
  "k < length is \<Longrightarrow>
   vertical_guides_loop g is ! (2 * k) =
     \<lparr>x1 = real_of_int (MARGIN g) + real (is ! k) * delta_x g,
      x2 = real_of_int (MARGIN g) + real (is ! k) * delta_x g,
      y1 = real_of_int (MARGIN g) / 2,
      y2 = real_of_int (MARGIN g) * 0.8\<rparr>
   \<and> vertical_guides_loop g is ! (2 * k + 1) =
     \<lparr>x1 = real_of_int (MARGIN g) + real (is ! k) * delta_x g,
      x2 = real_of_int (MARGIN g) + real (is ! k) * delta_x g,
      y1 = real_of_int (height g) - real_of_int (MARGIN g) / 2,
      y2 = real_of_int (height g) - real_of_int (MARGIN g) * 0.8\<rparr>"
proof (induction "is" arbitrary: k)
  case Nil
  then show ?case by simp
next
  case (Cons i "is")
  show ?case
  proof (cases k)
    case 0
    then show ?thesis by simp
  next
    case (Suc j)
    with Cons.prems have "j < length is" by simp
    from Cons.IH [OF this] Suc show ?thesis by simp
  qed
qed

lemma wide_guides_loop_bound:
  "\<forall>gd\<in>set (wide_guides_loop g is).
      x1 gd \<le> real_of_int (width g - MARGIN g) \<and> x2 gd \<le> real_of_int (width g - MARGIN g)"
proof (induction "is")
  case Nil
  show ?case by simp
next
  case (Cons i "is")
  show ?case
  proof (cases "MARGIN g + int i * (WIDE_LABEL_MM * 10) > width g - MARGIN g")
    case True
    then show ?thesis by (simp add: Let_def)
  next
    case False
    then have "MARGIN g + int i * (WIDE_LABEL_MM * 10) \<le> width g - MARGIN g" by simp
    then have "real_of_int (MARGIN g + int i * (WIDE_LABEL_MM * 10))
        \<le> real_of_int (width g - MARGIN g)"
      by (simp only: of_int_le_iff)
    with Cons.IH False show ?thesis by (simp add: Let_def)
  qed
qed








section \<open>Claims\<close>

text \<open>
  C1. In uniform grid mode the label at the zero-based global index \<open>i\<close> is the item at
  \<open>i\<close> with \<open>col = (i div ROWS) mod COLS\<close>, \<open>row = i mod ROWS\<close>,
  \<open>x = START_X + col * delta_x\<close> and \<open>y = START_Y + row * delta_y\<close>; the page loop puts it
  on the page of index \<open>i div (ROWS * COLS)\<close>, and two different items of one page never
  share both column and row. With 47 items the last one (\<open>i = 46\<close>) is at column 3,
  row 1, on the only page.
\<close>

theorem layout_labels_grid:
  "(i < length raw_items \<longrightarrow>
      layout_labels g raw_items ! i =
        \<lparr>label_item = raw_items ! i,
         label_x = real_of_int START_X + real ((i div ROWS) mod COLS) * delta_x g,
         label_y = real_of_int START_Y + real (i mod ROWS) * delta_y g\<rparr>
      \<and> page_labels (write_pages g c (layout_labels g raw_items) 1 ! (i div (ROWS * COLS)))
          ! (i mod (ROWS * COLS)) = layout_labels g raw_items ! i)
   \<and> (i \<noteq> j \<and> i div (ROWS * COLS) = j div (ROWS * COLS) \<longrightarrow>
        ((i div ROWS) mod COLS, i mod ROWS) \<noteq> ((j div ROWS) mod COLS, j mod ROWS))
   \<and> (length raw_items = 47 \<longrightarrow>
        (46 div ROWS) mod COLS = 3 \<and> 46 mod ROWS = 1
        \<and> last (layout_labels g raw_items) =
            \<lparr>label_item = last raw_items,
             label_x = real_of_int START_X + 3 * delta_x g,
             label_y = real_of_int START_Y + 1 * delta_y g\<rparr>
        \<and> length (write_pages g c (layout_labels g raw_items) 1) = 1)"
proof (intro conjI impI)
  assume "i < length raw_items"
  then show "layout_labels g raw_items ! i =
        \<lparr>label_item = raw_items ! i,
         label_x = real_of_int START_X + real ((i div ROWS) mod COLS) * delta_x g,
         label_y = real_of_int START_Y + real (i mod ROWS) * delta_y g\<rparr>"
    by (rule layout_labels_nth)
next
  assume "i < length raw_items"
  then have "i < length (layout_labels g raw_items)" by (simp add: layout_labels_length)
  then show "page_labels (write_pages g c (layout_labels g raw_items) 1 ! (i div (ROWS * COLS)))
          ! (i mod (ROWS * COLS)) = layout_labels g raw_items ! i"
    by (rule write_pages_item)
next
  assume "i \<noteq> j \<and> i div (ROWS * COLS) = j div (ROWS * COLS)"
  then show "((i div ROWS) mod COLS, i mod ROWS) \<noteq> ((j div ROWS) mod COLS, j mod ROWS)"
    using grid_cell_inj [of i ROWS COLS j] by auto
next
  show "(46 div ROWS) mod COLS = 3" by (simp add: ROWS_def COLS_def)
next
  show "46 mod ROWS = 1" by (simp add: ROWS_def COLS_def)
next
  assume n: "length raw_items = 47"
  then have ne: "raw_items \<noteq> []" by auto
  then have "layout_labels g raw_items \<noteq> []"
    using layout_labels_length [of g raw_items] by auto
  then have "last (layout_labels g raw_items) = layout_labels g raw_items ! 46"
    using n by (simp add: last_conv_nth layout_labels_length)
  moreover have "last raw_items = raw_items ! 46"
    using n ne by (simp add: last_conv_nth)
  moreover have "(46 div ROWS) mod COLS = 3" "46 mod ROWS = 1"
    by (simp_all add: ROWS_def COLS_def)
  ultimately show "last (layout_labels g raw_items) =
            \<lparr>label_item = last raw_items,
             label_x = real_of_int START_X + 3 * delta_x g,
             label_y = real_of_int START_Y + 1 * delta_y g\<rparr>"
    using layout_labels_nth [of 46 raw_items g] n by simp
next
  assume n: "length raw_items = 47"
  then show "length (write_pages g c (layout_labels g raw_items) 1) = 1"
    by (simp add: write_pages_length layout_labels_length ROWS_def COLS_def)
qed

theorem layout_labels_grid_witness:
  "layout_labels (projr (init ''letter'' ''output'' True False False None))
       (replicate 47 ''lea'') ! 46
     = \<lparr>label_item = ''lea'', label_x = 2042.5, label_y = 692 / 3\<rparr>
   \<and> page_labels (write_pages (projr (init ''letter'' ''output'' True False False None)) True
          (layout_labels (projr (init ''letter'' ''output'' True False False None))
             (replicate 47 ''lea'')) 1 ! 0) ! 46
     = \<lparr>label_item = ''lea'', label_x = 2042.5, label_y = 692 / 3\<rparr>
   \<and> ((46 div ROWS) mod COLS, 46 mod ROWS) \<noteq> ((31 div ROWS) mod COLS, 31 mod ROWS)
   \<and> last (layout_labels (projr (init ''letter'' ''output'' True False False None))
        (replicate 47 ''lea''))
     = \<lparr>label_item = ''lea'', label_x = 2042.5, label_y = 692 / 3\<rparr>
   \<and> length (write_pages (projr (init ''letter'' ''output'' True False False None)) True
        (layout_labels (projr (init ''letter'' ''output'' True False False None))
           (replicate 47 ''lea'')) 1) = 1"
  using layout_labels_grid [of 46 "replicate 47 ''lea''"
      "projr (init ''letter'' ''output'' True False False None)" True 31]
  by (simp add: init_def PAPER_SIZES_def class_MARGIN_def START_X_def START_Y_def
      ROWS_def COLS_def)

text \<open>
  C2. When the requests of \<^verbatim>\<open>generate_labels\<close> deliver \<open>N\<close> items, the call returns
  and writes \<open>ceil (N / (ROWS * COLS))\<close> pages, numbered from 1; page \<open>k + 1\<close> holds the
  \<open>k\<close>-th run of \<open>ROWS * COLS\<close> consecutive labels, so every page but the last is full,
  the last holds \<open>N mod (ROWS * COLS)\<close> labels, or \<open>ROWS * COLS\<close> when that is zero, and
  the pages read in order give back the items in their input order. No item, no page.
\<close>

theorem generate_labels_pagination:
  assumes "collect_raw_items w (narrow_to_sets sets g0) = Inr raw_items"
  shows "\<exists>pages.
      generate_labels w sets g0 = (narrow_to_sets sets g0, Inr pages)
      \<and> length pages = nat \<lceil>real (length raw_items) / real (ROWS * COLS)\<rceil>
      \<and> (\<forall>k<length pages.
            page_no (pages ! k) = k + 1
            \<and> page_labels (pages ! k) =
                take (ROWS * COLS)
                  (drop (k * (ROWS * COLS)) (layout_labels (narrow_to_sets sets g0) raw_items)))
      \<and> (\<forall>k. Suc k < length pages \<longrightarrow> length (page_labels (pages ! k)) = ROWS * COLS)
      \<and> (pages \<noteq> [] \<longrightarrow>
            length (page_labels (last pages)) =
              (if length raw_items mod (ROWS * COLS) = 0 then ROWS * COLS
               else length raw_items mod (ROWS * COLS)))
      \<and> map label_item (concat (map page_labels pages)) = raw_items
      \<and> (raw_items = [] \<longrightarrow> pages = [])"
proof -
  define g where "g = narrow_to_sets sets g0"
  define labels where "labels = layout_labels g raw_items"
  define pages where "pages = write_pages g (generate_pdfs g \<and> cairosvg w) labels 1"
  have n: "length labels = length raw_items"
    by (simp add: labels_def layout_labels_length)
  have res: "generate_labels w sets g0 = (narrow_to_sets sets g0, Inr pages)"
    using generate_labels_result [OF assms] by (simp add: pages_def labels_def g_def)
  have len: "length pages = nat \<lceil>real (length raw_items) / real (ROWS * COLS)\<rceil>"
    using ceil_div_nat [OF per_page_pos, of "length raw_items"]
    by (simp add: pages_def write_pages_length n)
  have nth: "\<forall>k<length pages.
      page_no (pages ! k) = k + 1
      \<and> page_labels (pages ! k) = take (ROWS * COLS) (drop (k * (ROWS * COLS)) labels)"
    by (simp add: pages_def write_pages_nth)
  have full: "\<forall>k. Suc k < length pages \<longrightarrow> length (page_labels (pages ! k)) = ROWS * COLS"
    by (simp add: pages_def write_pages_full)
  have last: "pages \<noteq> [] \<longrightarrow>
      length (page_labels (last pages)) =
        (if length raw_items mod (ROWS * COLS) = 0 then ROWS * COLS
         else length raw_items mod (ROWS * COLS))"
    using write_pages_last [of g "generate_pdfs g \<and> cairosvg w" labels 1]
    by (simp add: pages_def n)
  have order: "map label_item (concat (map page_labels pages)) = raw_items"
    by (simp add: pages_def write_pages_concat labels_def layout_labels_items)
  have empty: "raw_items = [] \<longrightarrow> pages = []"
    by (simp add: pages_def labels_def layout_labels_def write_pages_Nil)
  from res len nth full last order empty show ?thesis
    unfolding labels_def g_def by blast
qed

theorem generate_labels_pagination_witness:
  "\<exists>pages.
      generate_labels demo_scryfall None letter_generator = (letter_generator, Inr pages)
      \<and> length pages = 1
      \<and> page_no (pages ! 0) = 1
      \<and> length (page_labels (last pages)) = 2
      \<and> map (code \<circ> label_item) (concat (map page_labels pages)) = [''lea'', ''mh1'']"
proof -
  from generate_labels_pagination [OF demo_raw_items]
  obtain pages where
    res: "generate_labels demo_scryfall None letter_generator
        = (narrow_to_sets None letter_generator, Inr pages)"
    and len: "length pages = nat \<lceil>real (Suc (Suc 0)) / real (ROWS * COLS)\<rceil>"
    and nth: "\<forall>k<length pages. page_no (pages ! k) = k + 1"
    and last: "pages \<noteq> [] \<longrightarrow>
      length (page_labels (last pages)) =
        (if Suc (Suc 0) mod (ROWS * COLS) = 0 then ROWS * COLS else Suc (Suc 0) mod (ROWS * COLS))"
    and items: "map (code \<circ> label_item) (concat (map page_labels pages)) = [''lea'', ''mh1'']"
    by (auto simp flip: map_map)
  have "\<lceil>(2::real) / 60\<rceil> = 1" by (rule ceiling_unique) simp_all
  with len have len1: "length pages = 1" by (simp add: ROWS_def COLS_def)
  with nth have "page_no (pages ! 0) = 1" by simp
  moreover from len1 last have "length (page_labels (last pages)) = 2"
    by (auto simp: ROWS_def COLS_def)
  moreover have "narrow_to_sets None letter_generator = letter_generator"
    by (simp add: narrow_to_sets_def)
  ultimately show ?thesis using res len1 items by auto
qed

text \<open>
  C3. \<^verbatim>\<open>layout_wide_labels\<close> stores the column count
  \<open>max 1 (floor ((width - 2 * MARGIN) / (WIDE_LABEL_MM * 10)))\<close>: it is at least one, it is
  one whenever the usable width is below one label width, and a width of 2790 with a
  margin of 100 gives \<open>floor (2590 / 880) = 2\<close> columns.
\<close>

theorem layout_wide_labels_columns:
  "\<exists>cols.
      wide_cols (fst (layout_wide_labels g raw_items)) = Some cols
      \<and> int cols =
          max 1 \<lfloor>real_of_int (width g - 2 * MARGIN g) / real_of_int (WIDE_LABEL_MM * 10)\<rfloor>
      \<and> 1 \<le> cols
      \<and> (width g - 2 * MARGIN g < WIDE_LABEL_MM * 10 \<longrightarrow> cols = 1)
      \<and> (width g = 2790 \<and> MARGIN g = 100 \<longrightarrow>
            width g - 2 * MARGIN g = 2590 \<and> WIDE_LABEL_MM * 10 = 880 \<and> cols = 2)"
proof -
  define usable where "usable = width g - 2 * MARGIN g"
  define cols where "cols = nat (max 1 (usable div (WIDE_LABEL_MM * 10)))"
  have stored: "wide_cols (fst (layout_wide_labels g raw_items)) = Some cols"
    by (simp add: layout_wide_labels_cols cols_def usable_def)
  have "int cols = max 1 (usable div (WIDE_LABEL_MM * 10))"
    by (simp add: cols_def)
  then have floor: "int cols = max 1 \<lfloor>real_of_int usable / real_of_int (WIDE_LABEL_MM * 10)\<rfloor>"
    by (simp only: floor_divide_of_int_eq)
  have pos: "1 \<le> cols" by (simp add: cols_def)
  have clamp: "usable < WIDE_LABEL_MM * 10 \<longrightarrow> cols = 1"
  proof
    assume "usable < WIDE_LABEL_MM * 10"
    then have "usable \<le> 879" by (simp add: WIDE_LABEL_MM_def)
    then have "usable div 880 \<le> 879 div (880 :: int)" by (rule zdiv_mono1) simp
    then have "usable div (WIDE_LABEL_MM * 10) \<le> 0"
      by (simp add: WIDE_LABEL_MM_def)
    then show "cols = 1" by (simp add: cols_def max_def)
  qed
  have scen: "width g = 2790 \<and> MARGIN g = 100 \<longrightarrow>
      usable = 2590 \<and> WIDE_LABEL_MM * 10 = 880 \<and> cols = 2"
    by (simp add: usable_def cols_def WIDE_LABEL_MM_def)
  from stored floor pos clamp scen show ?thesis
    unfolding usable_def by blast
qed

text \<open>
  C4. When the requests of \<^verbatim>\<open>generate_color_set_mode\<close> deliver the items, the call
  returns; the label at the global index \<open>i\<close> has \<open>col = i mod cols\<close>,
  \<open>row = (i div cols) mod ROWS\<close>, \<open>_page = i div (cols * ROWS)\<close>,
  \<open>x = START_X + col * cell_w\<close> and \<open>y = START_Y + row * delta_y\<close> with the row delta of the
  uniform mode; the pages are the consecutive runs of \<open>cols * ROWS\<close> labels, numbered from
  1, and every label of the page of index \<open>k\<close> carries \<open>_page = k\<close>.
\<close>

theorem generate_color_set_mode_layout:
  assumes "collect_labels_raw w (narrow_to_sets sets g0) = Inr labels_raw"
  shows "\<exists>cols pages.
      generate_color_set_mode w sets g0
        = Some ((narrow_to_sets sets g0)\<lparr>wide_cols := Some cols\<rparr>, Inr pages)
      \<and> int cols = max 1 ((width g0 - 2 * MARGIN g0) div (WIDE_LABEL_MM * 10))
      \<and> concat (map page_labels pages) = snd (layout_wide_labels (narrow_to_sets sets g0) labels_raw)
      \<and> (\<forall>i<length labels_raw.
            concat (map page_labels pages) ! i =
              \<lparr>wide_item = labels_raw ! i,
               wide_x = START_X + int (i mod cols) * (WIDE_LABEL_MM * 10),
               wide_y = real_of_int START_Y + real ((i div cols) mod ROWS) * delta_y g0,
               wide_width = WIDE_LABEL_MM * 10,
               wide_page = i div (cols * ROWS)\<rparr>)
      \<and> (\<forall>k<length pages.
            page_no (pages ! k) = k + 1
            \<and> page_labels (pages ! k) =
                take (cols * ROWS) (drop (k * (cols * ROWS)) (concat (map page_labels pages)))
            \<and> (\<forall>l\<in>set (page_labels (pages ! k)). wide_page l = k))"
proof -
  define g where "g = narrow_to_sets sets g0"
  define cols where "cols = nat (max 1 ((width g - 2 * MARGIN g) div (WIDE_LABEL_MM * 10)))"
  define g' where "g' = g\<lparr>wide_cols := Some cols\<rparr>"
  define laid_out where "laid_out = layout_wide_labels_loop g cols 0 labels_raw"
  have geo: "width g = width g0" "MARGIN g = MARGIN g0" "delta_y g = delta_y g0"
    by (simp_all add: g_def narrow_to_sets_def split: option.splits)
  have lay: "layout_wide_labels g labels_raw = (g', laid_out)"
    by (simp add: layout_wide_labels_def Let_def g'_def laid_out_def cols_def)
  have cols_pos: "0 < cols" by (simp add: cols_def)
  then have pp: "0 < cols * ROWS" by (simp add: ROWS_def)
  from write_wide_pages_total [OF pp, of g' "generate_pdfs g' \<and> cairosvg w" laid_out 1]
  obtain pages where
    run: "write_wide_pages g' (generate_pdfs g' \<and> cairosvg w) (cols * ROWS) laid_out 1 = Some pages"
    and cat: "concat (map page_labels pages) = laid_out"
    and nth: "\<forall>k<length pages.
            pages ! k =
              \<lparr>page_no = 1 + k,
               page_labels = take (cols * ROWS) (drop (k * (cols * ROWS)) laid_out),
               horizontal_guides = create_horizontal_cutting_guides g',
               vertical_guides = wide_vertical_guides g',
               WIDTH = width g',
               HEIGHT = height g',
               pdf = ((generate_pdfs g' \<and> cairosvg w) \<and> generate_pdfs g')\<rparr>"
    by blast
  have res: "generate_color_set_mode w sets g0 = Some (g', Inr pages)"
    using generate_color_set_mode_result [OF assms] lay run
    by (simp add: g_def [symmetric] g'_def)
  have cols_int: "int cols = max 1 ((width g0 - 2 * MARGIN g0) div (WIDE_LABEL_MM * 10))"
    by (simp add: cols_def geo)
  have pos: "\<forall>i<length labels_raw.
            laid_out ! i =
              \<lparr>wide_item = labels_raw ! i,
               wide_x = START_X + int (i mod cols) * (WIDE_LABEL_MM * 10),
               wide_y = real_of_int START_Y + real ((i div cols) mod ROWS) * delta_y g0,
               wide_width = WIDE_LABEL_MM * 10,
               wide_page = i div (cols * ROWS)\<rparr>"
    using layout_wide_labels_loop_nth [of _ labels_raw g cols 0]
    by (simp add: laid_out_def geo)
  have len: "length laid_out = length labels_raw"
    by (simp add: laid_out_def layout_wide_labels_loop_length)
  have pages_ok: "\<forall>k<length pages.
            page_no (pages ! k) = k + 1
            \<and> page_labels (pages ! k) = take (cols * ROWS) (drop (k * (cols * ROWS)) laid_out)
            \<and> (\<forall>l\<in>set (page_labels (pages ! k)). wide_page l = k)"
  proof (intro allI impI conjI ballI)
    fix k
    assume k: "k < length pages"
    with nth show "page_no (pages ! k) = k + 1" by simp
    from k nth show chunk: "page_labels (pages ! k)
        = take (cols * ROWS) (drop (k * (cols * ROWS)) laid_out)" by simp
    fix l
    assume "l \<in> set (page_labels (pages ! k))"
    with chunk have "l \<in> set (take (cols * ROWS) (drop (k * (cols * ROWS)) laid_out))" by simp
    from chunk_members [OF this]
    obtain j where j: "j < cols * ROWS" and inb: "k * (cols * ROWS) + j < length laid_out"
      and l: "l = laid_out ! (k * (cols * ROWS) + j)"
      by blast
    from inb len pos l have "wide_page l = (k * (cols * ROWS) + j) div (cols * ROWS)" by simp
    also from j have "\<dots> = k" by (rule div_chunk_rem)
    finally show "wide_page l = k" .
  qed
  from pos pages_ok have "(\<forall>i<length labels_raw.
            concat (map page_labels pages) ! i =
              \<lparr>wide_item = labels_raw ! i,
               wide_x = START_X + int (i mod cols) * (WIDE_LABEL_MM * 10),
               wide_y = real_of_int START_Y + real ((i div cols) mod ROWS) * delta_y g0,
               wide_width = WIDE_LABEL_MM * 10,
               wide_page = i div (cols * ROWS)\<rparr>)
      \<and> (\<forall>k<length pages.
            page_no (pages ! k) = k + 1
            \<and> page_labels (pages ! k) =
                take (cols * ROWS) (drop (k * (cols * ROWS)) (concat (map page_labels pages)))
            \<and> (\<forall>l\<in>set (page_labels (pages ! k)). wide_page l = k))"
    unfolding cat by (rule conjI)
  moreover have "concat (map page_labels pages)
      = snd (layout_wide_labels (narrow_to_sets sets g0) labels_raw)"
    using lay by (simp add: cat g_def)
  moreover have "generate_color_set_mode w sets g0
        = Some ((narrow_to_sets sets g0)\<lparr>wide_cols := Some cols\<rparr>, Inr pages)"
    using res by (simp add: g'_def g_def)
  ultimately show ?thesis using cols_int by blast
qed

theorem layout_wide_labels_columns_witness:
  "wide_cols (fst (layout_wide_labels letter_generator ''abc'')) = Some 2
   \<and> wide_cols (fst (layout_wide_labels (letter_generator\<lparr>MARGIN := 1000\<rparr>) ''abc'')) = Some 1"
proof -
  from layout_wide_labels_columns [of letter_generator "''abc''"]
  obtain c1 where a: "wide_cols (fst (layout_wide_labels letter_generator ''abc'')) = Some c1"
    and b: "width letter_generator = 2790 \<and> MARGIN letter_generator = 100 \<longrightarrow> c1 = 2"
    by blast
  from layout_wide_labels_columns [of "letter_generator\<lparr>MARGIN := 1000\<rparr>" "''abc''"]
  obtain c2 where c:
      "wide_cols (fst (layout_wide_labels (letter_generator\<lparr>MARGIN := 1000\<rparr>) ''abc'')) = Some c2"
    and d: "width (letter_generator\<lparr>MARGIN := 1000\<rparr>)
        - 2 * MARGIN (letter_generator\<lparr>MARGIN := 1000\<rparr>) < WIDE_LABEL_MM * 10 \<longrightarrow> c2 = 1"
    by blast
  from b have "c1 = 2" by (simp add: letter_generator_eq)
  moreover from d have "c2 = 1" by (simp add: letter_generator_eq WIDE_LABEL_MM_def)
  ultimately show ?thesis using a c by simp
qed

theorem generate_color_set_mode_layout_witness:
  "\<exists>pages.
      generate_color_set_mode demo_scryfall None letter_generator
        = Some (letter_generator\<lparr>wide_cols := Some 2\<rparr>, Inr pages)
      \<and> map (\<lambda>l. (set_code (wide_item l), color_code (wide_item l), wide_x l, wide_y l, wide_page l))
          (concat (map page_labels pages))
        = [(''lea'', ''W'', 100, 100, 0), (''lea'', ''U'', 980, 100, 0),
           (''mh1'', ''W'', 100, 692 / 3, 0), (''mh1'', ''U'', 980, 692 / 3, 0)]"
proof -
  from generate_color_set_mode_layout [OF demo_labels_raw]
  obtain cols pages where
    res: "generate_color_set_mode demo_scryfall None letter_generator
        = Some ((narrow_to_sets None letter_generator)\<lparr>wide_cols := Some cols\<rparr>, Inr pages)"
    and cols: "int cols = max 1 ((width letter_generator - 2 * MARGIN letter_generator)
        div (WIDE_LABEL_MM * 10))"
    and cat: "concat (map page_labels pages)
        = snd (layout_wide_labels (narrow_to_sets None letter_generator)
            [\<lparr>set_name = ''Limited Edition Alpha'', set_code = ''lea'',
              set_icon_b64 = Some ''PHN2Zy8+'', color_code = ''W'', color_name = ''White'',
              color_icon_b64 = Some ''PHN2Zy8+''\<rparr>,
             \<lparr>set_name = ''Limited Edition Alpha'', set_code = ''lea'',
              set_icon_b64 = Some ''PHN2Zy8+'', color_code = ''U'', color_name = ''Blue'',
              color_icon_b64 = Some ''PHN2Zy8+''\<rparr>,
             \<lparr>set_name = ''Modern Horizons'', set_code = ''mh1'',
              set_icon_b64 = Some ''PHN2Zy8+'', color_code = ''W'', color_name = ''White'',
              color_icon_b64 = Some ''PHN2Zy8+''\<rparr>,
             \<lparr>set_name = ''Modern Horizons'', set_code = ''mh1'',
              set_icon_b64 = Some ''PHN2Zy8+'', color_code = ''U'', color_name = ''Blue'',
              color_icon_b64 = Some ''PHN2Zy8+''\<rparr>])"
    by blast
  from cols have "cols = 2" by (simp add: letter_generator_eq WIDE_LABEL_MM_def)
  with res have "generate_color_set_mode demo_scryfall None letter_generator
        = Some (letter_generator\<lparr>wide_cols := Some 2\<rparr>, Inr pages)"
    by (simp add: narrow_to_sets_def)
  moreover from cat have "map (\<lambda>l. (set_code (wide_item l), color_code (wide_item l), wide_x l, wide_y l, wide_page l))
          (concat (map page_labels pages))
        = [(''lea'', ''W'', 100, 100, 0), (''lea'', ''U'', 980, 100, 0),
           (''mh1'', ''W'', 100, 692 / 3, 0), (''mh1'', ''U'', 980, 692 / 3, 0)]"
    by (simp add: narrow_to_sets_def layout_wide_labels_def letter_generator_eq WIDE_LABEL_MM_def
        START_X_def START_Y_def class_MARGIN_def ROWS_def Let_def)
  ultimately show ?thesis by (intro exI [of _ pages] conjI)
qed

text \<open>
  C8. Renaming is idempotent: no name that \<^verbatim>\<open>RENAME_SETS.get(n, n)\<close> gives is a key
  that the dictionary maps to something else, so a second lookup changes nothing.
\<close>

theorem rename_set_idempotent: "rename_set (rename_set n) = rename_set n"
proof (cases "map_of RENAME_SETS n")
  case None
  then have "rename_set n = n" by (simp add: rename_set_def dict_get_def)
  then show ?thesis by simp
next
  case (Some v)
  then have rn: "rename_set n = v" by (simp add: rename_set_def dict_get_def)
  from Some have entry: "(n, v) \<in> set RENAME_SETS" by (rule map_of_SomeD)
  have "rename_set v = v"
  proof (cases "map_of RENAME_SETS v")
    case None
    then show ?thesis by (simp add: rename_set_def dict_get_def)
  next
    case inner: (Some u)
    then have "(v, u) \<in> set RENAME_SETS" by (rule map_of_SomeD)
    then have "(\<lambda>(k, v). take 4 (drop 25 k)) (v, u)
        \<in> (\<lambda>(k, v). take 4 (drop 25 k)) ` set RENAME_SETS"
      by (rule imageI)
    then have "take 4 (drop 25 v) \<in> set (map (\<lambda>(k, v). take 4 (drop 25 k)) RENAME_SETS)"
      by (simp only: set_map) simp
    with RENAME_SETS_values_not_keys [OF entry] have "n = v" by blast
    with Some inner have "u = v" by simp
    with inner show ?thesis by (simp add: rename_set_def dict_get_def)
  qed
  with rn show ?thesis by simp
qed

text \<open>
  C7, as amended. \<^verbatim>\<open>create_vertical_cutting_guides\<close> returns \<open>2 * (COLS + 1)\<close> guide
  segments, which are \<open>COLS + 1\<close> pairs: for each \<open>i\<close> from 0 to \<open>COLS\<close> a top tick and a
  bottom tick at \<open>x = MARGIN + i * delta_x\<close>, at the positions \<open>2 * i\<close> and \<open>2 * i + 1\<close> of
  the list. \<^verbatim>\<open>_wide_vertical_guides\<close> never returns a guide with \<open>x > width - MARGIN\<close>.
\<close>

theorem vertical_cutting_guides:
  "length (create_vertical_cutting_guides g) = 2 * (COLS + 1)
   \<and> (\<forall>i\<le>COLS.
         x1 (create_vertical_cutting_guides g ! (2 * i)) = real_of_int (MARGIN g) + real i * delta_x g
         \<and> y1 (create_vertical_cutting_guides g ! (2 * i)) = real_of_int (MARGIN g) / 2
         \<and> x1 (create_vertical_cutting_guides g ! (2 * i + 1))
             = real_of_int (MARGIN g) + real i * delta_x g
         \<and> y1 (create_vertical_cutting_guides g ! (2 * i + 1))
             = real_of_int (height g) - real_of_int (MARGIN g) / 2)
   \<and> (\<forall>gd\<in>set (wide_vertical_guides g).
         x1 gd \<le> real_of_int (width g - MARGIN g) \<and> x2 gd \<le> real_of_int (width g - MARGIN g))"
proof (intro conjI allI impI)
  show "length (create_vertical_cutting_guides g) = 2 * (COLS + 1)"
    by (simp add: create_vertical_cutting_guides_def vertical_guides_loop_length)
next
  fix i
  assume "i \<le> COLS"
  then have i: "i < length [0 ..< COLS + 1]" by simp
  then have at: "[0 ..< COLS + 1] ! i = i"
    by (metis add_0 length_upt minus_nat.diff_0 nth_upt)
  from vertical_guides_loop_nth [OF i, of g] at
  show "x1 (create_vertical_cutting_guides g ! (2 * i)) = real_of_int (MARGIN g) + real i * delta_x g"
    and "y1 (create_vertical_cutting_guides g ! (2 * i)) = real_of_int (MARGIN g) / 2"
    and "x1 (create_vertical_cutting_guides g ! (2 * i + 1))
             = real_of_int (MARGIN g) + real i * delta_x g"
    and "y1 (create_vertical_cutting_guides g ! (2 * i + 1))
             = real_of_int (height g) - real_of_int (MARGIN g) / 2"
    by (simp_all add: create_vertical_cutting_guides_def)
next
  show "\<forall>gd\<in>set (wide_vertical_guides g).
         x1 gd \<le> real_of_int (width g - MARGIN g) \<and> x2 gd \<le> real_of_int (width g - MARGIN g)"
  proof (cases "wide_cols g")
    case None
    then show ?thesis by (simp add: wide_vertical_guides_def)
  next
    case (Some cols)
    then have "wide_vertical_guides g = wide_guides_loop g [0 ..< cols + 1]"
      by (simp add: wide_vertical_guides_def)
    with wide_guides_loop_bound [of g "[0 ..< cols + 1]"] show ?thesis
      by (simp only:)
  qed
qed

theorem vertical_cutting_guides_witness:
  "length (create_vertical_cutting_guides letter_generator) = 10
   \<and> x1 (create_vertical_cutting_guides letter_generator ! 8) = 2690
   \<and> x1 (create_vertical_cutting_guides letter_generator ! 9) = 2690
   \<and> map x1 (wide_vertical_guides (letter_generator\<lparr>MARGIN := 1000, wide_cols := Some 1\<rparr>))
        = [1000, 1000]
   \<and> x1 (wide_vertical_guides (letter_generator\<lparr>MARGIN := 1000, wide_cols := Some 1\<rparr>) ! 1)
        \<le> 1790"
proof -
  define g where "g = letter_generator\<lparr>MARGIN := 1000, wide_cols := Some 1\<rparr>"
  have up: "[0 ..< 2] = [0, 1 :: nat]" by (simp add: upt_rec)
  have guides: "map x1 (wide_vertical_guides g) = [1000, 1000]"
    by (simp add: g_def wide_vertical_guides_def up letter_generator_eq WIDE_LABEL_MM_def Let_def)
  have "length (map x1 (wide_vertical_guides g)) = 2" unfolding guides by simp
  then have "length (wide_vertical_guides g) = 2" by (simp only: length_map)
  then have mem: "wide_vertical_guides g ! 1 \<in> set (wide_vertical_guides g)" by simp
  from vertical_cutting_guides [of letter_generator]
  have a: "length (create_vertical_cutting_guides letter_generator) = 2 * (COLS + 1)"
    and b: "\<forall>i\<le>COLS.
         x1 (create_vertical_cutting_guides letter_generator ! (2 * i))
           = real_of_int (MARGIN letter_generator) + real i * delta_x letter_generator
         \<and> x1 (create_vertical_cutting_guides letter_generator ! (2 * i + 1))
           = real_of_int (MARGIN letter_generator) + real i * delta_x letter_generator"
    by simp_all
  have "(4::nat) \<le> COLS" by (simp add: COLS_def)
  with b have "x1 (create_vertical_cutting_guides letter_generator ! (2 * 4))
           = real_of_int (MARGIN letter_generator) + real 4 * delta_x letter_generator
       \<and> x1 (create_vertical_cutting_guides letter_generator ! (2 * 4 + 1))
           = real_of_int (MARGIN letter_generator) + real 4 * delta_x letter_generator"
    by blast
  then have c: "x1 (create_vertical_cutting_guides letter_generator ! 8) = 2690
      \<and> x1 (create_vertical_cutting_guides letter_generator ! 9) = 2690"
    by (simp add: letter_generator_eq)
  from vertical_cutting_guides [of g] mem
  have "x1 (wide_vertical_guides g ! 1) \<le> real_of_int (width g - MARGIN g)" by blast
  then have d: "x1 (wide_vertical_guides g ! 1) \<le> 1790"
    by (simp add: g_def letter_generator_eq)
  from a c guides d show ?thesis
    by (simp add: COLS_def g_def)
qed

text \<open>
  The claim as it was written counts \<open>2 * (COLS + 1)\<close> guide pairs. With the default
  generator the ten guides stand at five x positions, two at each: five pairs, not ten.
\<close>

theorem vertical_guide_pairs_counterexample:
  "map x1 (create_vertical_cutting_guides letter_generator)
     = [100, 100, 1495 / 2, 1495 / 2, 1395, 1395, 4085 / 2, 4085 / 2, 2690, 2690]
   \<and> card (x1 ` set (create_vertical_cutting_guides letter_generator)) = 5
   \<and> card (x1 ` set (create_vertical_cutting_guides letter_generator)) \<noteq> 2 * (COLS + 1)"
proof -
  have up: "[0 ..< COLS + 1] = [0, 1, 2, 3, 4]" by (simp add: COLS_def upt_rec)
  have xs: "map x1 (create_vertical_cutting_guides letter_generator)
     = [100, 100, 1495 / 2, 1495 / 2, 1395, 1395, 4085 / 2, 4085 / 2, 2690, 2690]"
    unfolding create_vertical_cutting_guides_def up by (simp add: letter_generator_eq)
  have "x1 ` set (create_vertical_cutting_guides letter_generator)
      = set (map x1 (create_vertical_cutting_guides letter_generator))"
    by simp
  then have "card (x1 ` set (create_vertical_cutting_guides letter_generator))
      = card (set [100, 100, 1495 / 2, 1495 / 2, 1395, 1395, 4085 / 2, 4085 / 2, 2690, 2690 :: real])"
    by (simp only: xs)
  also have "\<dots> = 5" by (simp add: card_set)
  finally have c: "card (x1 ` set (create_vertical_cutting_guides letter_generator)) = 5" .
  from xs c show ?thesis by (simp add: COLS_def)
qed










end
